theory Spec2Isabelle
  imports Complex_Main "HOL-Library.Multiset"
begin

section \<open>Data model\<close>

text \<open>
  JavaScript numbers are modelled as \<open>real\<close>, without infinities or NaN. The arithmetic
  of \<open>FrameRecorder\<close> (the spacing test of \<open>recordKeyframe\<close> and the interpolation) rounds
  every result to a double, as the source's does: \<open>fl\<close> below. The remaining arithmetic
  (the duration of an export, the relative timestamps of \<open>render\<close>, the selection
  controller) is read over the reals.
\<close>

subsection \<open>Rounding to a double\<close>

text \<open>Rounding to the nearest integer, a tie to the even one.\<close>

definition rne :: "real \<Rightarrow> int" where
  "rne y = (let f = \<lfloor>y\<rfloor>
            in if y - of_int f < 1 / 2 then f
               else if y - of_int f > 1 / 2 then f + 1
               else if even f then f else f + 1)"

text \<open>The binary exponent \<open>e\<close> of \<open>x > 0\<close>, with \<open>2 ^ e \<le> x < 2 ^ (e + 1)\<close>, found by at most
  \<open>n\<close> doublings or halvings.\<close>

fun binade :: "nat \<Rightarrow> real \<Rightarrow> int" where
  "binade 0 x = 0"
| "binade (Suc n) x =
     (if x < 1 then binade n (2 * x) - 1
      else if 2 \<le> x then binade n (x / 2) + 1
      else 0)"

text \<open>
  \<open>fl x\<close> is \<open>x\<close> rounded to 53 significant bits, to nearest and a tie to even: the
  IEEE 754 binary64 value of \<open>x\<close> in the normal range (2200 steps reach every exponent of
  the format; overflow and subnormal numbers are left out). A numeric literal of the
  source and the result of each of its arithmetic operations are such values.
\<close>

definition fl :: "real \<Rightarrow> real" where
  "fl x = (if x = 0 then 0
           else let e = binade 2200 \<bar>x\<bar>
                in of_int (rne (x * 2 powi (52 - e))) * 2 powi (e - 52))"

definition js_add :: "real \<Rightarrow> real \<Rightarrow> real" where
  "js_add a b = fl (a + b)"

definition js_sub :: "real \<Rightarrow> real \<Rightarrow> real" where
  "js_sub a b = fl (a - b)"

definition js_mul :: "real \<Rightarrow> real \<Rightarrow> real" where
  "js_mul a b = fl (a * b)"

text \<open>A quotient by 0 is an infinity or NaN in the source and is not modelled.\<close>

definition js_div :: "real \<Rightarrow> real \<Rightarrow> real" where
  "js_div a b = fl (a / b)"

subsection \<open>Selections, keyframes and constants\<close>

text \<open>
  A selection is the object \<open>{x, y, width, height, zoom}\<close> of
  \<open>selectionController.js\<close>; a keyframe is the object built in
  \<open>FrameRecorder.recordKeyframe\<close>.
\<close>

record selection_rect =
  sel_x :: real
  sel_y :: real
  sel_width :: real
  sel_height :: real
  sel_zoom :: real

record keyframe =
  timestamp :: real
  selection :: selection_rect
  recordedAt :: real

text \<open>
  \<open>EDITOR_CONSTANTS\<close> of \<open>editorConstants.js\<close>, restricted to the groups the modelled code
  reads. The recorder reads \<open>RECORDING\<close> through \<open>?.\<close>, so the group may be absent.
\<close>

record selection_constants =
  ZOOM_SENSITIVITY :: real
  MIN_ZOOM :: real
  MAX_ZOOM :: real

record recording_constants =
  KEYFRAME_INTERVAL :: real
  SMOOTHING :: bool

record editor_constants =
  SELECTION :: selection_constants
  RECORDING :: "recording_constants option"

definition EDITOR_CONSTANTS :: editor_constants where
  "EDITOR_CONSTANTS =
     \<lparr>SELECTION = \<lparr>ZOOM_SENSITIVITY = 0.1, MIN_ZOOM = 0.3, MAX_ZOOM = 3.0\<rparr>,
      RECORDING = Some \<lparr>KEYFRAME_INTERVAL = 33, SMOOTHING = True\<rparr>\<rparr>"

text \<open>
  Failures of a call, as values. \<open>TypeError\<close> is a property read on \<open>undefined\<close>;
  \<open>NotLoaded\<close> and \<open>NoKeyframes\<close> are the two errors thrown by \<open>VideoRenderer.render\<close>.
  \<open>InvalidState\<close> is the error the specification names for \<open>startRecording\<close>; no
  statement of the source throws it.
\<close>

datatype error = InvalidState | TypeError | NotLoaded | NoKeyframes

subsection \<open>The JavaScript \<open>Map\<close> of keyframes\<close>

text \<open>
  A \<open>Map\<close> keeps its entries in insertion order and \<open>set\<close> on a present key replaces the
  value in place; it is an association list here.
\<close>

type_synonym track = "(real \<times> keyframe) list"

definition js_keys :: "track \<Rightarrow> real list" where
  "js_keys m = map fst m"

definition js_has :: "track \<Rightarrow> real \<Rightarrow> bool" where
  "js_has m k = (k \<in> set (js_keys m))"

definition js_get :: "track \<Rightarrow> real \<Rightarrow> keyframe option" where
  "js_get m k = map_of m k"

fun js_set :: "track \<Rightarrow> real \<Rightarrow> keyframe \<Rightarrow> track" where
  "js_set [] k v = [(k, v)]"
| "js_set (p # ps) k v = (if fst p = k then (k, v) # ps else p # js_set ps k v)"

definition js_delete :: "track \<Rightarrow> real \<Rightarrow> track" where
  "js_delete m k = filter (\<lambda>p. fst p \<noteq> k) m"

definition js_size :: "track \<Rightarrow> nat" where
  "js_size m = length m"

section \<open>FrameRecorder (\<open>src/editor/frameRecorder.js\<close>)\<close>

text \<open>
  The events dispatched by \<open>emitRecordingEvent\<close> are kept in a log, without the
  wall-clock stamp of the event object.
\<close>

datatype recording_event =
    EvStarted
  | EvStopped nat real
  | EvKeyframe keyframe
  | EvKeyframeDeleted real
  | EvKeyframesCleared
  | EvKeyframesImported nat

record recorder =
  isRecording :: bool
  keyframes :: track
  currentTime :: real
  videoDuration :: real
  lastKeyframeTime :: real
  constants :: editor_constants
  events :: "recording_event list"

definition FrameRecorder_new :: "editor_constants \<Rightarrow> recorder" where
  "FrameRecorder_new c =
     \<lparr>isRecording = False, keyframes = [], currentTime = 0, videoDuration = 0,
      lastKeyframeTime = 0, constants = c, events = []\<rparr>"

definition emitRecordingEvent :: "recording_event \<Rightarrow> recorder \<Rightarrow> recorder" where
  "emitRecordingEvent e s = s\<lparr>events := events s @ [e]\<rparr>"

text \<open>
  \<open>startRecording\<close>: the guard \<open>if (this.isRecording) return;\<close> is a normal return. The
  result is a sum so that a thrown error would be \<open>Inl\<close>; no path of the source throws.
\<close>

definition startRecording :: "real \<Rightarrow> recorder \<Rightarrow> error + recorder" where
  "startRecording duration s =
     (if isRecording s then Inr s
      else Inr (emitRecordingEvent EvStarted
             (s\<lparr>isRecording := True, videoDuration := duration, keyframes := [],
                currentTime := 0, lastKeyframeTime := 0\<rparr>)))"

definition stopRecording :: "recorder \<Rightarrow> recorder" where
  "stopRecording s =
     (if \<not> isRecording s then s
      else emitRecordingEvent (EvStopped (js_size (keyframes s)) (videoDuration s))
             (s\<lparr>isRecording := False\<rparr>))"

text \<open>\<open>KEYFRAME_INTERVAL / 1000 || 0.033\<close>: the fallback is taken when the left side is
  falsy, that is when the group is absent (NaN) or the quotient is 0. The literal
  \<open>0.033\<close> is the double nearest to 33/1000.\<close>

definition minInterval :: "editor_constants \<Rightarrow> real" where
  "minInterval c =
     (case RECORDING c of
        None \<Rightarrow> fl (33 / 1000)
      | Some r \<Rightarrow>
          (if js_div (KEYFRAME_INTERVAL r) 1000 = 0 then fl (33 / 1000)
           else js_div (KEYFRAME_INTERVAL r) 1000))"

text \<open>\<open>recordKeyframe(timestamp, selectionData)\<close>; \<open>now\<close> is the value of \<open>Date.now()\<close>.\<close>

definition recordKeyframe :: "real \<Rightarrow> selection_rect \<Rightarrow> real \<Rightarrow> recorder \<Rightarrow> recorder" where
  "recordKeyframe ts selectionData now s =
     (if \<not> isRecording s then s
      else if ts < 0 \<or> ts > videoDuration s then s
      else
        let timeDiff = js_sub ts (lastKeyframeTime s);
            mi = minInterval (constants s)
        in if timeDiff < mi \<and> js_has (keyframes s) (lastKeyframeTime s) then s
           else
             let kf = \<lparr>timestamp = ts, selection = selectionData, recordedAt = now\<rparr>
             in emitRecordingEvent (EvKeyframe kf)
                  (s\<lparr>keyframes := js_set (keyframes s) ts kf,
                     lastKeyframeTime := ts, currentTime := ts\<rparr>))"

definition updateTime :: "real \<Rightarrow> recorder \<Rightarrow> recorder" where
  "updateTime ts s = s\<lparr>currentTime := ts\<rparr>"

definition getKeyframeAt :: "real \<Rightarrow> recorder \<Rightarrow> keyframe option" where
  "getKeyframeAt ts s = js_get (keyframes s) ts"

definition deleteKeyframe :: "real \<Rightarrow> recorder \<Rightarrow> recorder" where
  "deleteKeyframe ts s =
     (if js_has (keyframes s) ts
      then emitRecordingEvent (EvKeyframeDeleted ts) (s\<lparr>keyframes := js_delete (keyframes s) ts\<rparr>)
      else s)"

definition clearKeyframes :: "recorder \<Rightarrow> recorder" where
  "clearKeyframes s = emitRecordingEvent EvKeyframesCleared (s\<lparr>keyframes := []\<rparr>)"

text \<open>
  \<open>importKeyframes(keyframesData)\<close>: the argument is the \<open>keyframes\<close> property of the
  data, \<open>None\<close> when it is missing. Each keyframe is stored under its own timestamp.
\<close>

definition importKeyframes :: "keyframe list option \<Rightarrow> recorder \<Rightarrow> recorder" where
  "importKeyframes data s =
     (let s1 = clearKeyframes s;
          s2 = (case data of
                  None \<Rightarrow> s1
                | Some kfs \<Rightarrow> s1\<lparr>keyframes := fold (\<lambda>kf m. js_set m (timestamp kf) kf) kfs (keyframes s1)\<rparr>)
      in emitRecordingEvent (EvKeyframesImported (case data of None \<Rightarrow> 0 | Some kfs \<Rightarrow> length kfs)) s2)"

subsection \<open>Interpolation\<close>

text \<open>\<open>start + (end - start) * progress\<close>, each operation rounded.\<close>

definition lerp :: "real \<Rightarrow> real \<Rightarrow> real \<Rightarrow> real" where
  "lerp a b progress = js_add a (js_mul (js_sub b a) progress)"

text \<open>\<open>t < 0.5 ? 2 * t * t : -1 + (4 - 2 * t) * t\<close>; the product \<open>2 * t * t\<close> is
  \<open>(2 * t) * t\<close>.\<close>

definition easeInOut :: "real \<Rightarrow> real" where
  "easeInOut t =
     (if t < 1 / 2 then js_mul (js_mul 2 t) t
      else js_add (-1) (js_mul (js_sub 4 (js_mul 2 t)) t))"

text \<open>\<open>this.constants.RECORDING?.SMOOTHING\<close> as a condition: false when the group is absent.\<close>

definition smoothing :: "editor_constants \<Rightarrow> bool" where
  "smoothing c = (case RECORDING c of None \<Rightarrow> False | Some r \<Rightarrow> SMOOTHING r)"

text \<open>\<open>(currentTime - time1) / (time2 - time1)\<close>, rounded after each operation. The
  quotient is only taken with \<open>time1 \<noteq> time2\<close> on the paths of
  \<open>getInterpolatedSelection\<close>.\<close>

definition interpolateSelection ::
  "editor_constants \<Rightarrow> selection_rect \<Rightarrow> selection_rect \<Rightarrow> real \<Rightarrow> real \<Rightarrow> real \<Rightarrow> selection_rect" where
  "interpolateSelection c selection1 selection2 time1 time2 current =
     (let progress = js_div (js_sub current time1) (js_sub time2 time1);
          easedProgress = (if smoothing c then easeInOut progress else progress)
      in \<lparr>sel_x = lerp (sel_x selection1) (sel_x selection2) easedProgress,
          sel_y = lerp (sel_y selection1) (sel_y selection2) easedProgress,
          sel_width = lerp (sel_width selection1) (sel_width selection2) easedProgress,
          sel_height = lerp (sel_height selection1) (sel_height selection2) easedProgress,
          sel_zoom = lerp (sel_zoom selection1) (sel_zoom selection2) easedProgress\<rparr>)"

text \<open>
  The scan of \<open>getInterpolatedSelection\<close> over the sorted timestamps, from index \<open>i\<close>:
  \<^verbatim>\<open>
  for (let i = 0; i < timestamps.length; i++) {
      if (timestamps[i] <= timestamp) beforeIndex = i;
      if (timestamps[i] >= timestamp && afterIndex === -1) { afterIndex = i; break; }
  }
  \<close>
  The result is the pair \<open>(beforeIndex, afterIndex)\<close>, \<open>-1\<close> meaning not found.
\<close>

function findSurrounding :: "real list \<Rightarrow> real \<Rightarrow> nat \<Rightarrow> int \<Rightarrow> int \<Rightarrow> int \<times> int" where
  "findSurrounding timestamps t i beforeIndex afterIndex =
     (if i < length timestamps then
        let beforeIndex' = (if timestamps ! i \<le> t then int i else beforeIndex)
        in if timestamps ! i \<ge> t \<and> afterIndex = -1 then (beforeIndex', int i)
           else findSurrounding timestamps t (Suc i) beforeIndex' afterIndex
      else (beforeIndex, afterIndex))"
  by pat_completeness auto
termination
  by (relation "measure (\<lambda>(timestamps, t, i, b, a). length timestamps - i)") auto

declare findSurrounding.simps [simp del]

text \<open>\<open>this.keyframes.get(timestamps[i]).selection\<close>: an index outside the array reads
  \<open>undefined\<close>, \<open>get\<close> of a missing key is \<open>undefined\<close>, and \<open>.selection\<close> of that throws.\<close>

definition selectionAtIndex :: "track \<Rightarrow> real list \<Rightarrow> int \<Rightarrow> error + selection_rect" where
  "selectionAtIndex m timestamps i =
     (if 0 \<le> i \<and> i < int (length timestamps)
      then (case js_get m (timestamps ! nat i) of
              None \<Rightarrow> Inl TypeError
            | Some kf \<Rightarrow> Inr (selection kf))
      else Inl TypeError)"

definition getKeyframeTimestamps :: "recorder \<Rightarrow> real list" where
  "getKeyframeTimestamps s = sort (js_keys (keyframes s))"

text \<open>\<open>getInterpolatedSelection(timestamp)\<close>; \<open>Inr None\<close> is the source's \<open>null\<close>.\<close>

definition getInterpolatedSelection :: "real \<Rightarrow> recorder \<Rightarrow> error + selection_rect option" where
  "getInterpolatedSelection t s =
     (if js_size (keyframes s) = 0 then Inr None
      else
        let timestamps = sort (js_keys (keyframes s));
            (beforeIndex, afterIndex) = findSurrounding timestamps t 0 (-1) (-1)
        in if beforeIndex = afterIndex \<and> beforeIndex \<noteq> -1
             then map_sum id Some (selectionAtIndex (keyframes s) timestamps beforeIndex)
           else if beforeIndex = -1 \<and> afterIndex = -1 then Inr None
           else if beforeIndex = -1
             then map_sum id Some (selectionAtIndex (keyframes s) timestamps afterIndex)
           else if afterIndex = -1
             then map_sum id Some (selectionAtIndex (keyframes s) timestamps beforeIndex)
           else
             (case selectionAtIndex (keyframes s) timestamps beforeIndex of
                Inl e \<Rightarrow> Inl e
              | Inr selection1 \<Rightarrow>
                  (case selectionAtIndex (keyframes s) timestamps afterIndex of
                     Inl e \<Rightarrow> Inl e
                   | Inr selection2 \<Rightarrow>
                       Inr (Some (interpolateSelection (constants s) selection1 selection2
                                    (timestamps ! nat beforeIndex) (timestamps ! nat afterIndex) t)))))"

subsection \<open>Export of the track\<close>

record export_data =
  exp_keyframes :: "keyframe list"
  exp_startTime :: real
  exp_endTime :: real
  exp_duration :: real
  exp_totalKeyframes :: nat
  exp_exportedAt :: real

text \<open>
  \<open>exportKeyframes(startTime = 0, endTime = this.videoDuration)\<close>: an argument left out is
  \<open>None\<close>. \<open>forEach\<close> visits the entries in insertion order and \<open>Array.prototype.sort\<close> is
  stable. The recorder is returned beside the data to show what the call leaves of it.
\<close>

definition exportKeyframes ::
  "real option \<Rightarrow> real option \<Rightarrow> real \<Rightarrow> recorder \<Rightarrow> export_data \<times> recorder" where
  "exportKeyframes startArg endArg now s =
     (let startTime = (case startArg of None \<Rightarrow> 0 | Some v \<Rightarrow> v);
          endTime = (case endArg of None \<Rightarrow> videoDuration s | Some v \<Rightarrow> v);
          filteredKeyframes =
            map snd (filter (\<lambda>(ts, kf). ts \<ge> startTime \<and> ts \<le> endTime) (keyframes s));
          sortedKeyframes = sort_key timestamp filteredKeyframes
      in (\<lparr>exp_keyframes = sortedKeyframes, exp_startTime = startTime, exp_endTime = endTime,
           exp_duration = endTime - startTime, exp_totalKeyframes = length sortedKeyframes,
           exp_exportedAt = now\<rparr>, s))"

subsection \<open>Sequences of calls\<close>

datatype track_op =
    OpStartRecording real
  | OpStopRecording
  | OpRecord real selection_rect real
  | OpImport "keyframe list option"
  | OpDelete real
  | OpClear

fun apply_op :: "recorder \<Rightarrow> track_op \<Rightarrow> error + recorder" where
  "apply_op s (OpStartRecording d) = startRecording d s"
| "apply_op s OpStopRecording = Inr (stopRecording s)"
| "apply_op s (OpRecord ts sel now) = Inr (recordKeyframe ts sel now s)"
| "apply_op s (OpImport data) = Inr (importKeyframes data s)"
| "apply_op s (OpDelete ts) = Inr (deleteKeyframe ts s)"
| "apply_op s OpClear = Inr (clearKeyframes s)"

text \<open>A thrown error would end the sequence, as an exception does.\<close>

fun run_ops :: "recorder \<Rightarrow> track_op list \<Rightarrow> error + recorder" where
  "run_ops s [] = Inr s"
| "run_ops s (c # cs) = (case apply_op s c of Inl e \<Rightarrow> Inl e | Inr s' \<Rightarrow> run_ops s' cs)"

fun record_all :: "(real \<times> selection_rect \<times> real) list \<Rightarrow> recorder \<Rightarrow> recorder" where
  "record_all [] s = s"
| "record_all ((ts, sel, now) # cs) s = record_all cs (recordKeyframe ts sel now s)"

text \<open>Every stored timestamp lies within \<open>[0, videoDuration]\<close>.\<close>

definition timestamps_in_bounds :: "recorder \<Rightarrow> bool" where
  "timestamps_in_bounds s = list_all (\<lambda>k. 0 \<le> k \<and> k \<le> videoDuration s) (js_keys (keyframes s))"

text \<open>The keyframes handed to an import lie within \<open>[0, videoDuration]\<close> of the recorder
  that imports them.\<close>

fun import_in_bounds :: "recorder \<Rightarrow> track_op \<Rightarrow> bool" where
  "import_in_bounds s (OpImport (Some kfs)) =
     list_all (\<lambda>kf. 0 \<le> timestamp kf \<and> timestamp kf \<le> videoDuration s) kfs"
| "import_in_bounds s c = True"

fun imports_in_bounds :: "recorder \<Rightarrow> track_op list \<Rightarrow> bool" where
  "imports_in_bounds s [] = True"
| "imports_in_bounds s (c # cs) =
     (import_in_bounds s c \<and>
      (case apply_op s c of Inl e \<Rightarrow> True | Inr s' \<Rightarrow> imports_in_bounds s' cs))"

text \<open>Consecutive timestamps of a stream of calls are less than \<open>mi\<close> apart, by the
  subtraction of the source.\<close>

fun spaced_closer :: "real \<Rightarrow> real list \<Rightarrow> bool" where
  "spaced_closer mi (a # b # ts) = (js_sub b a < mi \<and> spaced_closer mi (b # ts))"
| "spaced_closer mi ts = True"

section \<open>SelectionController (\<open>src/components/editor/selectionController.js\<close>)\<close>

text \<open>
  The controller, restricted to what the wheel path reads and writes: the selection, the
  canvas size, the constants, and the selections passed to \<open>editor.onSelectionChanged\<close>.
  Drawing is left out.
\<close>

record controller =
  ctl_selection :: selection_rect
  canvas_width :: real
  canvas_height :: real
  ctl_constants :: editor_constants
  notifications :: "selection_rect list"

text \<open>The four assignments of \<open>constrainToCanvas\<close>, in order: the new width is computed
  from the new \<open>x\<close>, the new height from the new \<open>y\<close>.\<close>

definition constrainToCanvas :: "controller \<Rightarrow> controller" where
  "constrainToCanvas c =
     (let sel = ctl_selection c;
          x' = max 0 (min (canvas_width c - sel_width sel) (sel_x sel));
          y' = max 0 (min (canvas_height c - sel_height sel) (sel_y sel));
          w' = min (sel_width sel) (canvas_width c - x');
          h' = min (sel_height sel) (canvas_height c - y')
      in c\<lparr>ctl_selection := sel\<lparr>sel_x := x', sel_y := y', sel_width := w', sel_height := h'\<rparr>\<rparr>)"

definition applyZoom :: "real \<Rightarrow> controller \<Rightarrow> controller" where
  "applyZoom newZoom c =
     (let sel = ctl_selection c;
          zoomRatio = newZoom / sel_zoom sel;
          centerX = sel_x sel + sel_width sel / 2;
          centerY = sel_y sel + sel_height sel / 2;
          w = sel_width sel * zoomRatio;
          h = sel_height sel * zoomRatio
      in constrainToCanvas
           (c\<lparr>ctl_selection :=
                \<lparr>sel_x = centerX - w / 2, sel_y = centerY - h / 2,
                 sel_width = w, sel_height = h, sel_zoom = newZoom\<rparr>\<rparr>))"

definition wheelZoom :: "real \<Rightarrow> controller \<Rightarrow> real" where
  "wheelZoom deltaY c =
     (let k = SELECTION (ctl_constants c);
          zoomDelta = (if deltaY > 0 then - ZOOM_SENSITIVITY k else ZOOM_SENSITIVITY k)
      in max (MIN_ZOOM k) (min (MAX_ZOOM k) (sel_zoom (ctl_selection c) + zoomDelta)))"

text \<open>\<open>handleWheel(event)\<close>, with \<open>deltaY\<close> for \<open>event.deltaY\<close>; \<open>wheelZoom\<close> is its
  \<open>newZoom\<close>.\<close>

definition handleWheel :: "real \<Rightarrow> controller \<Rightarrow> controller" where
  "handleWheel deltaY c =
     (let newZoom = wheelZoom deltaY c
      in if newZoom \<noteq> sel_zoom (ctl_selection c)
         then (let c' = applyZoom newZoom c
               in c'\<lparr>notifications := notifications c' @ [ctl_selection c']\<rparr>)
         else c)"

section \<open>VideoRenderer.render: the zoompan expressions\<close>

text \<open>
  The expression strings that \<open>render\<close> builds, as syntax trees: a number printed by a
  template literal is \<open>Num\<close>, \<open>t\<close>, \<open>iw\<close> and \<open>ih\<close> are variables of the render engine.
  A string made by \<open>join(':')\<close> is the list of its terms.
\<close>

datatype fexpr =
    Num real
  | Var string
  | Sub fexpr fexpr
  | Mul fexpr fexpr
  | Quot fexpr fexpr
  | Gte fexpr fexpr
  | If fexpr fexpr fexpr

definition relativeKeyframes :: "real \<Rightarrow> keyframe list \<Rightarrow> keyframe list" where
  "relativeKeyframes trimStart kfs = map (\<lambda>kf. kf\<lparr>timestamp := timestamp kf - trimStart\<rparr>) kfs"

text \<open>The term \<open>if(gte(t,${kf.timestamp}),${value},${otherwise})\<close>.\<close>

definition gate :: "real \<Rightarrow> real \<Rightarrow> fexpr \<Rightarrow> fexpr" where
  "gate ts v otherwise = If (Gte (Var ''t'') (Num ts)) (Num v) otherwise"

record render_command =
  cmd_trimStart :: real
  cmd_trimEnd :: real
  cmd_targetAspect :: real
  zExpr :: "fexpr list"
  xExpr :: "fexpr list"
  yExpr :: "fexpr list"

text \<open>
  \<open>render(videoFile, keyframes, onProgress, trimStart, trimEnd)\<close> up to the filter graph;
  \<open>isLoaded\<close> is the field of the renderer. The two guards throw.
\<close>

definition render :: "bool \<Rightarrow> keyframe list \<Rightarrow> real \<Rightarrow> real \<Rightarrow> error + render_command" where
  "render isLoaded kfs trimStart trimEnd =
     (if \<not> isLoaded then Inl NotLoaded
      else if length kfs = 0 then Inl NoKeyframes
      else
        let rel = relativeKeyframes trimStart kfs;
            half = (\<lambda>v. Quot (Var v) (Num 2));
            dflt = (\<lambda>v. Sub (half v) (Quot (Mul (Var v) (Num 1)) (Num 2)))
        in Inr \<lparr>cmd_trimStart = trimStart, cmd_trimEnd = trimEnd, cmd_targetAspect = 9 / 16,
                zExpr = (if length kfs > 0
                         then map (\<lambda>kf. gate (timestamp kf) (sel_zoom (selection kf)) (Num 1)) rel
                         else [Num 1]),
                xExpr = (if length kfs > 0
                         then map (\<lambda>kf. gate (timestamp kf) (sel_x (selection kf)) (half ''iw'')) rel
                         else [dflt ''iw'']),
                yExpr = (if length kfs > 0
                         then map (\<lambda>kf. gate (timestamp kf) (sel_y (selection kf)) (half ''ih'')) rel
                         else [dflt ''ih''])\<rparr>)"

text \<open>A track as a \<open>Map\<close> built by the recorder has it: no key twice, and every keyframe
  stored under its own timestamp.\<close>

definition track_wf :: "track \<Rightarrow> bool" where
  "track_wf m = (distinct (js_keys m) \<and> list_all (\<lambda>(k, kf). timestamp kf = k) m)"

section \<open>Starting a recording twice\<close>

text \<open>
  C4 (as amended). \<open>startRecording\<close> called while a recording is in progress returns
  normally, without any error, and leaves the whole recorder (stored keyframes, video
  duration, recording flag, lastKeyframeTime, event log) unchanged.
\<close>

theorem startRecording_while_recording:
  "isRecording s \<Longrightarrow> startRecording duration s = Inr s"
  by (simp add: startRecording_def)

theorem startRecording_while_recording_witness:
  "isRecording ((FrameRecorder_new EDITOR_CONSTANTS)\<lparr>isRecording := True\<rparr>) \<and>
   startRecording 10 ((FrameRecorder_new EDITOR_CONSTANTS)\<lparr>isRecording := True\<rparr>)
     = Inr ((FrameRecorder_new EDITOR_CONSTANTS)\<lparr>isRecording := True\<rparr>)"
  using startRecording_while_recording
          [of "(FrameRecorder_new EDITOR_CONSTANTS)\<lparr>isRecording := True\<rparr>" 10]
  by (simp add: FrameRecorder_new_def)

text \<open>The claim as stated fails: a call during a 10 s recording returns normally with the
  recorder as it was; it does not end in \<open>InvalidState\<close>.\<close>

theorem startRecording_no_InvalidState:
  "startRecording 20 ((FrameRecorder_new EDITOR_CONSTANTS)\<lparr>isRecording := True, videoDuration := 10\<rparr>)
     = Inr ((FrameRecorder_new EDITOR_CONSTANTS)\<lparr>isRecording := True, videoDuration := 10\<rparr>) \<and>
   startRecording 20 ((FrameRecorder_new EDITOR_CONSTANTS)\<lparr>isRecording := True, videoDuration := 10\<rparr>)
     \<noteq> Inl InvalidState"
  by (simp add: startRecording_def)

section \<open>The minimum-spacing policy of \<open>recordKeyframe\<close>\<close>

lemma js_get_js_set: "js_get (js_set m k v) k = Some v"
  by (induction m) (auto simp: js_get_def)

lemma js_get_js_set_other: "k' \<noteq> k \<Longrightarrow> js_get (js_set m k v) k' = js_get m k'"
  by (induction m) (auto simp: js_get_def)

lemma js_has_js_set: "js_has (js_set m k v) k"
  by (induction m) (auto simp: js_has_def js_keys_def)

lemma js_keys_js_set:
  "js_keys (js_set m k v) = (if js_has m k then js_keys m else js_keys m @ [k])"
  by (induction m) (auto simp: js_has_def js_keys_def)

lemma js_size_js_set: "js_size (js_set m k v) \<le> Suc (js_size m)"
  by (induction m) (auto simp: js_size_def)

lemma recordKeyframe_dropped:
  "js_sub ts (lastKeyframeTime s) < minInterval (constants s) \<Longrightarrow>
   js_has (keyframes s) (lastKeyframeTime s) \<Longrightarrow> recordKeyframe ts sel now s = s"
  by (simp add: recordKeyframe_def Let_def)

lemma recordKeyframe_stored:
  "isRecording s \<Longrightarrow> 0 \<le> ts \<Longrightarrow> ts \<le> videoDuration s \<Longrightarrow>
   \<not> (js_sub ts (lastKeyframeTime s) < minInterval (constants s) \<and> js_has (keyframes s) (lastKeyframeTime s)) \<Longrightarrow>
   recordKeyframe ts sel now s =
     s\<lparr>keyframes := js_set (keyframes s) ts \<lparr>timestamp = ts, selection = sel, recordedAt = now\<rparr>,
       lastKeyframeTime := ts, currentTime := ts,
       events := events s @ [EvKeyframe \<lparr>timestamp = ts, selection = sel, recordedAt = now\<rparr>]\<rparr>"
  by (auto simp add: recordKeyframe_def Let_def emitRecordingEvent_def)

lemma recordKeyframe_cases:
  "recordKeyframe ts sel now s = s \<or>
   (recordKeyframe ts sel now s =
     s\<lparr>keyframes := js_set (keyframes s) ts \<lparr>timestamp = ts, selection = sel, recordedAt = now\<rparr>,
       lastKeyframeTime := ts, currentTime := ts,
       events := events s @ [EvKeyframe \<lparr>timestamp = ts, selection = sel, recordedAt = now\<rparr>]\<rparr>)"
  by (auto simp add: recordKeyframe_def Let_def emitRecordingEvent_def)

lemma recordKeyframe_size:
  "js_size (keyframes (recordKeyframe ts sel now s)) \<le> Suc (js_size (keyframes s))"
  using recordKeyframe_cases[of ts sel now s]
        js_size_js_set[of "keyframes s" ts "\<lparr>timestamp = ts, selection = sel, recordedAt = now\<rparr>"]
  by auto

lemma record_all_size:
  "js_size (keyframes (record_all cs s)) \<le> js_size (keyframes s) + length cs"
proof (induction cs arbitrary: s)
  case Nil
  then show ?case by simp
next
  case (Cons c cs)
  obtain ts sel now where c: "c = (ts, sel, now)" by (cases c) auto
  have "js_size (keyframes (record_all cs (recordKeyframe ts sel now s)))
          \<le> js_size (keyframes (recordKeyframe ts sel now s)) + length cs"
    by (rule Cons.IH)
  with recordKeyframe_size[of ts sel now s] show ?case by (simp add: c)
qed

text \<open>Of two calls less than \<open>minInterval\<close> apart, at most one is stored.\<close>

lemma record_two_close:
  assumes "js_sub t2 t1 < minInterval (constants s)"
  shows "js_size (keyframes (recordKeyframe t2 sel2 now2 (recordKeyframe t1 sel1 now1 s)))
           \<le> Suc (js_size (keyframes s))"
proof -
  let ?s1 = "recordKeyframe t1 sel1 now1 s"
  consider (drop) "?s1 = s"
    | (store) "?s1 =
     s\<lparr>keyframes := js_set (keyframes s) t1 \<lparr>timestamp = t1, selection = sel1, recordedAt = now1\<rparr>,
       lastKeyframeTime := t1, currentTime := t1,
       events := events s @ [EvKeyframe \<lparr>timestamp = t1, selection = sel1, recordedAt = now1\<rparr>]\<rparr>"
    using recordKeyframe_cases[of t1 sel1 now1 s] by blast
  then show ?thesis
  proof cases
    case drop
    with recordKeyframe_size[of t2 sel2 now2 s] show ?thesis by simp
  next
    case store
    have "lastKeyframeTime ?s1 = t1" "constants ?s1 = constants s"
         "js_has (keyframes ?s1) t1"
      by (simp_all add: store js_has_js_set)
    with assms have "recordKeyframe t2 sel2 now2 ?s1 = ?s1"
      by (intro recordKeyframe_dropped) simp_all
    then show ?thesis using recordKeyframe_size[of t1 sel1 now1 s] by simp
  qed
qed

lemma stream_fewer:
  assumes "keyframes s = []" "2 \<le> length cs"
    and "spaced_closer (minInterval (constants s)) (map fst cs)"
  shows "js_size (keyframes (record_all cs s)) < length cs"
proof -
  obtain c1 c2 rest where cs: "cs = c1 # c2 # rest"
    using assms(2) by (cases cs; cases "tl cs") auto
  obtain t1 sel1 now1 where c1: "c1 = (t1, sel1, now1)" by (cases c1) auto
  obtain t2 sel2 now2 where c2: "c2 = (t2, sel2, now2)" by (cases c2) auto
  let ?s2 = "recordKeyframe t2 sel2 now2 (recordKeyframe t1 sel1 now1 s)"
  have "js_sub t2 t1 < minInterval (constants s)" using assms(3) by (simp add: cs c1 c2)
  then have "js_size (keyframes ?s2) \<le> 1"
    using record_two_close[of t2 t1 s sel2 now2 sel1 now1] assms(1) by (simp add: js_size_def)
  moreover have "js_size (keyframes (record_all rest ?s2)) \<le> js_size (keyframes ?s2) + length rest"
    by (rule record_all_size)
  ultimately show ?thesis by (simp add: cs c1 c2)
qed

lemma startRecording_fresh:
  "\<not> isRecording s0 \<Longrightarrow>
   startRecording d s0 =
     Inr (s0\<lparr>isRecording := True, videoDuration := d, keyframes := [], currentTime := 0,
             lastKeyframeTime := 0, events := events s0 @ [EvStarted]\<rparr>)"
  by (simp add: startRecording_def emitRecordingEvent_def)

lemma record_all_le:
  "keyframes s = [] \<Longrightarrow> js_size (keyframes (record_all cs s)) \<le> length cs"
  using record_all_size[of cs s] by (simp add: js_size_def)

text \<open>
  C2. While recording, a call \<open>recordKeyframe ts sel\<close> with \<open>0 \<le> ts \<le> videoDuration\<close>
  returns the recorder unchanged exactly when \<open>ts - lastKeyframeTime < minInterval\<close> (the
  difference as the source computes it) and a keyframe exists at \<open>lastKeyframeTime\<close>;
  otherwise the keyframe is stored under \<open>ts\<close> (replacing the entry of an equal timestamp
  in place, appended otherwise) and \<open>lastKeyframeTime\<close> becomes \<open>ts\<close>. \<open>minInterval\<close> is
  \<open>KEYFRAME_INTERVAL / 1000\<close> of the recorder's constants, and the literal 0.033 when the
  group is absent or the quotient is 0; with the constants of the repository it is
  33 / 1000 as a double. The first in-bounds sample after \<open>startRecording\<close> is stored. A
  stream of calls issued to a fresh session never leaves more entries than calls, and
  when it has a second call, each call less than \<open>minInterval\<close> after the one before, it
  leaves strictly fewer.
\<close>

theorem recordKeyframe_min_spacing:
  "(isRecording s \<and> 0 \<le> ts \<and> ts \<le> videoDuration s \<longrightarrow>
      (if js_sub ts (lastKeyframeTime s) < minInterval (constants s) \<and>
          js_has (keyframes s) (lastKeyframeTime s)
       then recordKeyframe ts sel now s = s
       else recordKeyframe ts sel now s \<noteq> s \<and>
            keyframes (recordKeyframe ts sel now s)
              = js_set (keyframes s) ts \<lparr>timestamp = ts, selection = sel, recordedAt = now\<rparr> \<and>
            js_get (keyframes (recordKeyframe ts sel now s)) ts
              = Some \<lparr>timestamp = ts, selection = sel, recordedAt = now\<rparr> \<and>
            js_keys (keyframes (recordKeyframe ts sel now s))
              = (if js_has (keyframes s) ts then js_keys (keyframes s) else js_keys (keyframes s) @ [ts]) \<and>
            lastKeyframeTime (recordKeyframe ts sel now s) = ts))
   \<and> (RECORDING c = Some r \<and> js_div (KEYFRAME_INTERVAL r) 1000 \<noteq> 0 \<longrightarrow>
        minInterval c = js_div (KEYFRAME_INTERVAL r) 1000)
   \<and> (RECORDING c = Some r \<and> js_div (KEYFRAME_INTERVAL r) 1000 = 0 \<longrightarrow>
        minInterval c = fl (33 / 1000))
   \<and> (RECORDING c = None \<longrightarrow> minInterval c = fl (33 / 1000))
   \<and> minInterval EDITOR_CONSTANTS = js_div 33 1000
   \<and> js_div 33 1000 = 1188950301625811 / 36028797018963968
   \<and> (\<not> isRecording s0 \<and> 0 \<le> ts \<and> ts \<le> d \<longrightarrow>
        (\<exists>s1. startRecording d s0 = Inr s1 \<and>
              js_get (keyframes (recordKeyframe ts sel now s1)) ts
                = Some \<lparr>timestamp = ts, selection = sel, recordedAt = now\<rparr>))
   \<and> (\<not> isRecording s0 \<and> startRecording d s0 = Inr s1 \<longrightarrow>
        js_size (keyframes (record_all cs s1)) \<le> length cs)
   \<and> (\<not> isRecording s0 \<and> startRecording d s0 = Inr s1 \<and> 2 \<le> length cs \<and>
       spaced_closer (minInterval (constants s1)) (map fst cs) \<longrightarrow>
        js_size (keyframes (record_all cs s1)) < length cs)"
proof (intro conjI impI)
  assume a: "isRecording s \<and> 0 \<le> ts \<and> ts \<le> videoDuration s"
  let ?c = "js_sub ts (lastKeyframeTime s) < minInterval (constants s) \<and>
            js_has (keyframes s) (lastKeyframeTime s)"
  let ?kf = "\<lparr>timestamp = ts, selection = sel, recordedAt = now\<rparr>"
  show "if ?c then recordKeyframe ts sel now s = s
       else recordKeyframe ts sel now s \<noteq> s \<and>
            keyframes (recordKeyframe ts sel now s) = js_set (keyframes s) ts ?kf \<and>
            js_get (keyframes (recordKeyframe ts sel now s)) ts = Some ?kf \<and>
            js_keys (keyframes (recordKeyframe ts sel now s))
              = (if js_has (keyframes s) ts then js_keys (keyframes s) else js_keys (keyframes s) @ [ts]) \<and>
            lastKeyframeTime (recordKeyframe ts sel now s) = ts"
  proof (cases ?c)
    case True
    then show ?thesis by (simp add: recordKeyframe_dropped)
  next
    case False
    have eq: "recordKeyframe ts sel now s =
       s\<lparr>keyframes := js_set (keyframes s) ts ?kf, lastKeyframeTime := ts, currentTime := ts,
         events := events s @ [EvKeyframe ?kf]\<rparr>"
      using a False by (intro recordKeyframe_stored) auto
    have "events (recordKeyframe ts sel now s) \<noteq> events s" by (simp add: eq)
    then have "recordKeyframe ts sel now s \<noteq> s" by auto
    moreover have "keyframes (recordKeyframe ts sel now s) = js_set (keyframes s) ts ?kf"
      by (simp add: eq)
    moreover have "lastKeyframeTime (recordKeyframe ts sel now s) = ts" by (simp add: eq)
    ultimately show ?thesis using False
      by (simp add: js_get_js_set js_keys_js_set)
  qed
next
  assume "RECORDING c = Some r \<and> js_div (KEYFRAME_INTERVAL r) 1000 \<noteq> 0"
  then show "minInterval c = js_div (KEYFRAME_INTERVAL r) 1000"
    by (simp add: minInterval_def)
next
  assume "RECORDING c = Some r \<and> js_div (KEYFRAME_INTERVAL r) 1000 = 0"
  then show "minInterval c = fl (33 / 1000)"
    by (simp add: minInterval_def)
next
  assume "RECORDING c = None"
  then show "minInterval c = fl (33 / 1000)"
    by (simp add: minInterval_def)
next
  show v: "js_div 33 1000 = 1188950301625811 / 36028797018963968"
    by code_simp
  then have "js_div 33 1000 \<noteq> 0" by simp
  then show "minInterval EDITOR_CONSTANTS = js_div 33 1000"
    by (simp add: minInterval_def EDITOR_CONSTANTS_def)
next
  assume a: "\<not> isRecording s0 \<and> 0 \<le> ts \<and> ts \<le> d"
  let ?s1 = "s0\<lparr>isRecording := True, videoDuration := d, keyframes := [], currentTime := 0,
             lastKeyframeTime := 0, events := events s0 @ [EvStarted]\<rparr>"
  let ?kf = "\<lparr>timestamp = ts, selection = sel, recordedAt = now\<rparr>"
  have "startRecording d s0 = Inr ?s1" using a by (simp add: startRecording_fresh)
  moreover have "recordKeyframe ts sel now ?s1 =
       ?s1\<lparr>keyframes := js_set (keyframes ?s1) ts ?kf, lastKeyframeTime := ts, currentTime := ts,
         events := events ?s1 @ [EvKeyframe ?kf]\<rparr>"
    using a by (intro recordKeyframe_stored) (simp_all add: js_has_def js_keys_def)
  then have "js_get (keyframes (recordKeyframe ts sel now ?s1)) ts = Some ?kf"
    by (simp add: js_get_def)
  ultimately show "\<exists>s1. startRecording d s0 = Inr s1 \<and>
              js_get (keyframes (recordKeyframe ts sel now s1)) ts = Some ?kf"
    by blast
next
  assume a: "\<not> isRecording s0 \<and> startRecording d s0 = Inr s1"
  then have "keyframes s1 = []" by (auto simp: startRecording_fresh)
  then show "js_size (keyframes (record_all cs s1)) \<le> length cs"
    by (rule record_all_le)
next
  assume a: "\<not> isRecording s0 \<and> startRecording d s0 = Inr s1 \<and> 2 \<le> length cs \<and>
       spaced_closer (minInterval (constants s1)) (map fst cs)"
  then have "keyframes s1 = []" by (auto simp: startRecording_fresh)
  with a show "js_size (keyframes (record_all cs s1)) < length cs"
    by (intro stream_fewer) simp_all
qed

theorem recordKeyframe_min_spacing_witness:
  "minInterval (EDITOR_CONSTANTS\<lparr>RECORDING := Some \<lparr>KEYFRAME_INTERVAL = 50, SMOOTHING = True\<rparr>\<rparr>)
     = 3602879701896397 / 72057594037927936 \<and>
   minInterval (EDITOR_CONSTANTS\<lparr>RECORDING := Some \<lparr>KEYFRAME_INTERVAL = 0, SMOOTHING = True\<rparr>\<rparr>)
     = fl (33 / 1000) \<and>
   minInterval (EDITOR_CONSTANTS\<lparr>RECORDING := None\<rparr>) = fl (33 / 1000) \<and>
   js_sub (fl (1033 / 1000)) 1 < minInterval EDITOR_CONSTANTS \<and>
   recordKeyframe (fl (1033 / 1000)) \<lparr>sel_x = 5, sel_y = 0, sel_width = 100, sel_height = 100, sel_zoom = 1\<rparr> 9
      ((FrameRecorder_new EDITOR_CONSTANTS)
         \<lparr>isRecording := True, videoDuration := 10, lastKeyframeTime := 1,
          keyframes := [(1, \<lparr>timestamp = 1, selection = \<lparr>sel_x = 0, sel_y = 0, sel_width = 100, sel_height = 100, sel_zoom = 1\<rparr>, recordedAt = 7\<rparr>)]\<rparr>)
     = (FrameRecorder_new EDITOR_CONSTANTS)
         \<lparr>isRecording := True, videoDuration := 10, lastKeyframeTime := 1,
          keyframes := [(1, \<lparr>timestamp = 1, selection = \<lparr>sel_x = 0, sel_y = 0, sel_width = 100, sel_height = 100, sel_zoom = 1\<rparr>, recordedAt = 7\<rparr>)]\<rparr> \<and>
   startRecording 10 (FrameRecorder_new EDITOR_CONSTANTS)
     = Inr ((FrameRecorder_new EDITOR_CONSTANTS)
             \<lparr>isRecording := True, videoDuration := 10, events := [EvStarted]\<rparr>) \<and>
   js_get (keyframes (recordKeyframe 1 \<lparr>sel_x = 0, sel_y = 0, sel_width = 100, sel_height = 100, sel_zoom = 1\<rparr> 7
      ((FrameRecorder_new EDITOR_CONSTANTS)
         \<lparr>isRecording := True, videoDuration := 10, events := [EvStarted]\<rparr>))) 1
     = Some \<lparr>timestamp = 1,
             selection = \<lparr>sel_x = 0, sel_y = 0, sel_width = 100, sel_height = 100, sel_zoom = 1\<rparr>,
             recordedAt = 7\<rparr> \<and>
   lastKeyframeTime (recordKeyframe 1 \<lparr>sel_x = 0, sel_y = 0, sel_width = 100, sel_height = 100, sel_zoom = 1\<rparr> 7
      ((FrameRecorder_new EDITOR_CONSTANTS)
         \<lparr>isRecording := True, videoDuration := 10, events := [EvStarted]\<rparr>)) = 1 \<and>
   spaced_closer (minInterval EDITOR_CONSTANTS)
     (map fst [(0, \<lparr>sel_x = 0, sel_y = 0, sel_width = 100, sel_height = 100, sel_zoom = 1\<rparr>, 7),
               (fl (1 / 100), \<lparr>sel_x = 1, sel_y = 0, sel_width = 100, sel_height = 100, sel_zoom = 1\<rparr>, 8),
               (fl (2 / 100), \<lparr>sel_x = 2, sel_y = 0, sel_width = 100, sel_height = 100, sel_zoom = 1\<rparr>, 9)]) \<and>
   js_size (keyframes (record_all
       [(0, \<lparr>sel_x = 0, sel_y = 0, sel_width = 100, sel_height = 100, sel_zoom = 1\<rparr>, 7),
        (fl (1 / 100), \<lparr>sel_x = 1, sel_y = 0, sel_width = 100, sel_height = 100, sel_zoom = 1\<rparr>, 8),
        (fl (2 / 100), \<lparr>sel_x = 2, sel_y = 0, sel_width = 100, sel_height = 100, sel_zoom = 1\<rparr>, 9)]
       ((FrameRecorder_new EDITOR_CONSTANTS)
          \<lparr>isRecording := True, videoDuration := 10, events := [EvStarted]\<rparr>))) < 3"
proof -
  let ?sel = "\<lparr>sel_x = 0, sel_y = 0, sel_width = 100, sel_height = 100, sel_zoom = 1\<rparr>"
  let ?sel5 = "\<lparr>sel_x = 5, sel_y = 0, sel_width = 100, sel_height = 100, sel_zoom = 1\<rparr>"
  let ?new = "FrameRecorder_new EDITOR_CONSTANTS"
  let ?fresh = "?new\<lparr>isRecording := True, videoDuration := 10, events := [EvStarted]\<rparr>"
  let ?S1 = "?new\<lparr>isRecording := True, videoDuration := 10, lastKeyframeTime := 1,
          keyframes := [(1, \<lparr>timestamp = 1, selection = ?sel, recordedAt = 7\<rparr>)]\<rparr>"
  let ?cs = "[(0, ?sel, 7),
        (fl (1 / 100), \<lparr>sel_x = 1, sel_y = 0, sel_width = 100, sel_height = 100, sel_zoom = 1\<rparr>, 8),
        (fl (2 / 100), \<lparr>sel_x = 2, sel_y = 0, sel_width = 100, sel_height = 100, sel_zoom = 1\<rparr>, 9)]"
  have v50: "js_div 50 1000 = 3602879701896397 / 72057594037927936"
    and v0: "js_div 0 1000 = 0"
    and mi: "minInterval EDITOR_CONSTANTS = 1188950301625811 / 36028797018963968"
    and t: "fl (1033 / 1000) = 2326109207536861 / 2251799813685248"
    and d: "js_sub (2326109207536861 / 2251799813685248) 1 = 74309393851613 / 2251799813685248"
    and sp: "spaced_closer (minInterval EDITOR_CONSTANTS) (map fst ?cs)"
    by code_simp+
  have m50: "minInterval (EDITOR_CONSTANTS\<lparr>RECORDING := Some \<lparr>KEYFRAME_INTERVAL = 50, SMOOTHING = True\<rparr>\<rparr>)
               = 3602879701896397 / 72057594037927936"
    using recordKeyframe_min_spacing
      [where c = "EDITOR_CONSTANTS\<lparr>RECORDING := Some \<lparr>KEYFRAME_INTERVAL = 50, SMOOTHING = True\<rparr>\<rparr>"
         and r = "\<lparr>KEYFRAME_INTERVAL = 50, SMOOTHING = True\<rparr>"]
    by (simp add: v50)
  have m0: "minInterval (EDITOR_CONSTANTS\<lparr>RECORDING := Some \<lparr>KEYFRAME_INTERVAL = 0, SMOOTHING = True\<rparr>\<rparr>)
               = fl (33 / 1000)"
    using recordKeyframe_min_spacing
      [where c = "EDITOR_CONSTANTS\<lparr>RECORDING := Some \<lparr>KEYFRAME_INTERVAL = 0, SMOOTHING = True\<rparr>\<rparr>"
         and r = "\<lparr>KEYFRAME_INTERVAL = 0, SMOOTHING = True\<rparr>"]
    by (simp add: v0)
  have mn: "minInterval (EDITOR_CONSTANTS\<lparr>RECORDING := None\<rparr>) = fl (33 / 1000)"
    using recordKeyframe_min_spacing [where c = "EDITOR_CONSTANTS\<lparr>RECORDING := None\<rparr>"]
    by simp
  have lt: "js_sub (fl (1033 / 1000)) 1 < minInterval EDITOR_CONSTANTS"
    by (simp add: t d mi)
  have drop: "recordKeyframe (fl (1033 / 1000)) ?sel5 9 ?S1 = ?S1"
  proof -
    have h: "isRecording ?S1 \<and> 0 \<le> fl (1033 / 1000) \<and> fl (1033 / 1000) \<le> videoDuration ?S1"
      by (simp add: FrameRecorder_new_def t)
    have c: "js_sub (fl (1033 / 1000)) (lastKeyframeTime ?S1) < minInterval (constants ?S1) \<and>
             js_has (keyframes ?S1) (lastKeyframeTime ?S1)"
      using lt by (simp add: FrameRecorder_new_def js_has_def js_keys_def)
    show ?thesis
      using recordKeyframe_min_spacing
              [where s = ?S1 and ts = "fl (1033 / 1000)" and sel = ?sel5 and now = 9,
               THEN conjunct1, rule_format, OF h]
      by (simp only: c if_True)
  qed
  have start: "startRecording 10 ?new = Inr ?fresh"
    by (simp add: startRecording_def emitRecordingEvent_def FrameRecorder_new_def)
  have first: "js_get (keyframes (recordKeyframe 1 ?sel 7 ?fresh)) 1
                 = Some \<lparr>timestamp = 1, selection = ?sel, recordedAt = 7\<rparr> \<and>
               lastKeyframeTime (recordKeyframe 1 ?sel 7 ?fresh) = 1"
  proof -
    have h: "isRecording ?fresh \<and> (0::real) \<le> 1 \<and> 1 \<le> videoDuration ?fresh"
      by (simp add: FrameRecorder_new_def)
    have c: "\<not> (js_sub 1 (lastKeyframeTime ?fresh) < minInterval (constants ?fresh) \<and>
                js_has (keyframes ?fresh) (lastKeyframeTime ?fresh))"
      by (simp add: FrameRecorder_new_def js_has_def js_keys_def)
    show ?thesis
      using recordKeyframe_min_spacing
              [where s = ?fresh and ts = 1 and sel = ?sel and now = 7,
               THEN conjunct1, rule_format, OF h]
      by (auto simp only: c if_False)
  qed
  have fewer: "js_size (keyframes (record_all ?cs ?fresh)) < 3"
  proof -
    have h: "\<not> isRecording ?new \<and> startRecording 10 ?new = Inr ?fresh \<and> 2 \<le> length ?cs \<and>
             spaced_closer (minInterval (constants ?fresh)) (map fst ?cs)"
      using start sp by (simp add: FrameRecorder_new_def)
    show ?thesis
      using recordKeyframe_min_spacing
              [where ?s0.0 = ?new and d = 10 and ?s1.0 = ?fresh and cs = ?cs,
               THEN conjunct2, THEN conjunct2, THEN conjunct2, THEN conjunct2, THEN conjunct2,
               THEN conjunct2, THEN conjunct2, THEN conjunct2, rule_format, OF h]
      by simp
  qed
  show ?thesis using m50 m0 mn lt drop start first sp fewer by (simp only: simp_thms)
qed

section \<open>Interpolation at stored timestamps and beyond the ends of the track\<close>

lemma findSurrounding_skip:
  "i \<le> k \<Longrightarrow> k \<le> length ts \<Longrightarrow> (\<forall>j. i \<le> j \<and> j < k \<longrightarrow> ts ! j < t) \<Longrightarrow>
   findSurrounding ts t i b (-1) = findSurrounding ts t k (if i < k then int k - 1 else b) (-1)"
proof (induction "k - i" arbitrary: i b)
  case 0
  then show ?case by simp
next
  case (Suc d)
  then have ik: "i < k" and lt: "ts ! i < t" and il: "i < length ts" by auto
  have step: "findSurrounding ts t i b (-1) = findSurrounding ts t (Suc i) (int i) (-1)"
    using lt il by (subst findSurrounding.simps) simp
  have "findSurrounding ts t (Suc i) (int i) (-1)
          = findSurrounding ts t k (if Suc i < k then int k - 1 else int i) (-1)"
    using Suc by (intro Suc.hyps(1)) auto
  also have "(if Suc i < k then int k - 1 else int i) = int k - 1"
    using ik by auto
  finally show ?case using step ik by simp
qed

lemma findSurrounding_closed:
  "findSurrounding ts t 0 (-1) (-1) =
     (let k = length (takeWhile (\<lambda>v. v < t) ts)
      in if k < length ts then (if ts ! k \<le> t then int k else int k - 1, int k)
         else (int (length ts) - 1, -1))"
proof -
  define k where "k = length (takeWhile (\<lambda>v. v < t) ts)"
  have kl: "k \<le> length ts" unfolding k_def by (rule length_takeWhile_le)
  have before: "\<forall>j. 0 \<le> j \<and> j < k \<longrightarrow> ts ! j < t"
    unfolding k_def by (metis nth_mem set_takeWhileD takeWhile_nth)
  have skip: "findSurrounding ts t 0 (-1) (-1)
                = findSurrounding ts t k (if 0 < k then int k - 1 else -1) (-1)"
    using findSurrounding_skip[of 0 k ts t "-1"] kl before by simp
  show ?thesis
  proof (cases "k < length ts")
    case True
    then have ge: "ts ! k \<ge> t"
      using nth_length_takeWhile[of "\<lambda>v. v < t" ts] unfolding k_def by auto
    have "findSurrounding ts t k (if 0 < k then int k - 1 else -1) (-1)
            = (if ts ! k \<le> t then int k else int k - 1, int k)"
      using True ge by (subst findSurrounding.simps) auto
    then show ?thesis using skip True by (simp add: k_def Let_def)
  next
    case False
    then have "k = length ts" using kl by simp
    moreover have "findSurrounding ts t (length ts) b (-1) = (b, -1)" for b
      by (subst findSurrounding.simps) simp
    ultimately show ?thesis using skip False by (auto simp add: k_def[symmetric] Let_def)
  qed
qed

lemma js_get_key:
  "k \<in> set (js_keys m) \<Longrightarrow> \<exists>kf. js_get m k = Some kf"
  by (cases "map_of m k") (auto simp: js_get_def js_keys_def map_of_eq_None_iff)

lemma js_get_Some_key: "js_get m k = Some kf \<Longrightarrow> k \<in> set (js_keys m)"
  by (auto simp: js_get_def js_keys_def dest: map_of_SomeD intro: rev_image_eqI)

lemma selectionAtIndex_sorted_keys:
  assumes "j < length m"
  shows "\<exists>kf. js_get m (sort (js_keys m) ! j) = Some kf \<and>
              selectionAtIndex m (sort (js_keys m)) (int j) = Inr (selection kf)"
proof -
  have "j < length (sort (js_keys m))" using assms by (simp add: js_keys_def)
  then have "sort (js_keys m) ! j \<in> set (sort (js_keys m))" by (rule nth_mem)
  then have "sort (js_keys m) ! j \<in> set (js_keys m)" by simp
  then obtain kf where "js_get m (sort (js_keys m) ! j) = Some kf"
    using js_get_key by blast
  then show ?thesis using assms by (simp add: selectionAtIndex_def js_keys_def)
qed

text \<open>The value of \<open>getInterpolatedSelection\<close> on a non-empty track, by the position \<open>k\<close> of
  the first sorted timestamp that is not below \<open>t\<close>.\<close>

lemma getInterpolatedSelection_nonempty:
  fixes s :: recorder and t :: real
  assumes "keyframes s \<noteq> []"
  defines "ts \<equiv> sort (js_keys (keyframes s))"
  defines "k \<equiv> length (takeWhile (\<lambda>v. v < t) ts)"
  shows "getInterpolatedSelection t s =
     (if k < length ts then
        (if ts ! k \<le> t then map_sum id Some (selectionAtIndex (keyframes s) ts (int k))
         else if k = 0 then map_sum id Some (selectionAtIndex (keyframes s) ts 0)
         else (case selectionAtIndex (keyframes s) ts (int k - 1) of
                 Inl e \<Rightarrow> Inl e
               | Inr selection1 \<Rightarrow>
                   (case selectionAtIndex (keyframes s) ts (int k) of
                      Inl e \<Rightarrow> Inl e
                    | Inr selection2 \<Rightarrow>
                        Inr (Some (interpolateSelection (constants s) selection1 selection2
                                     (ts ! (k - 1)) (ts ! k) t)))))
      else map_sum id Some (selectionAtIndex (keyframes s) ts (int (length ts) - 1)))"
proof -
  have n: "length ts > 0" using assms(1) by (simp add: ts_def js_keys_def)
  have sz: "js_size (keyframes s) \<noteq> 0" using assms(1) by (simp add: js_size_def)
  have fs: "findSurrounding ts t 0 (-1) (-1) =
     (if k < length ts then (if ts ! k \<le> t then int k else int k - 1, int k)
      else (int (length ts) - 1, -1))"
    by (simp add: findSurrounding_closed k_def Let_def)
  show ?thesis
  proof (cases "k < length ts")
    case False
    then show ?thesis using n sz fs
      by (simp add: getInterpolatedSelection_def ts_def[symmetric] Let_def)
  next
    case True
    show ?thesis
    proof (cases "ts ! k \<le> t")
      case le: True
      then show ?thesis using True sz fs
        by (simp add: getInterpolatedSelection_def ts_def[symmetric] Let_def)
    next
      case gt: False
      show ?thesis
      proof (cases "k = 0")
        case True
        then show ?thesis using \<open>k < length ts\<close> gt sz fs
          by (simp add: getInterpolatedSelection_def ts_def[symmetric] Let_def)
      next
        case False
        then have "nat (int k - 1) = k - 1" "int k - 1 \<noteq> -1" "int k - 1 \<noteq> int k" by auto
        then show ?thesis using \<open>k < length ts\<close> gt sz fs False
          by (simp add: getInterpolatedSelection_def ts_def[symmetric] Let_def split: sum.splits)
      qed
    qed
  qed
qed

lemma int_pred: "0 < n \<Longrightarrow> int (n - 1) = int n - 1"
  by (cases n) auto

lemma getInterpolatedSelection_Some:
  assumes "keyframes s \<noteq> []"
  shows "\<exists>sel. getInterpolatedSelection t s = Inr (Some sel)"
proof -
  let ?m = "keyframes s"
  let ?ts = "sort (js_keys ?m)"
  let ?k = "length (takeWhile (\<lambda>v. v < t) ?ts)"
  have len: "length ?ts = length ?m" by (simp add: js_keys_def)
  have n: "0 < length ?m" using assms by simp
  have at: "j < length ?m \<Longrightarrow> \<exists>sel. selectionAtIndex ?m ?ts (int j) = Inr sel" for j
    using selectionAtIndex_sorted_keys[of j ?m] by blast
  show ?thesis
  proof (cases "?k < length ?ts")
    case False
    obtain sel where "selectionAtIndex ?m ?ts (int (length ?m - 1)) = Inr sel"
      using at[of "length ?m - 1"] n by auto
    moreover have "int (length ?m - 1) = int (length ?ts) - 1"
      using int_pred[OF n] by (simp only: len)
    ultimately show ?thesis
      using False by (simp add: getInterpolatedSelection_nonempty[OF assms])
  next
    case True
    then obtain sel2 where s2: "selectionAtIndex ?m ?ts (int ?k) = Inr sel2"
      using at[of ?k] len by auto
    obtain sel0 where s0: "selectionAtIndex ?m ?ts 0 = Inr sel0"
      using at[of 0] n by auto
    show ?thesis
    proof (cases "?k = 0")
      case k0: True
      then show ?thesis using True s0
        by (simp add: getInterpolatedSelection_nonempty[OF assms])
    next
      case False
      then have pk: "0 < ?k" by simp
      have "?k - 1 < length ?m" using True len by simp
      then obtain sel1 where "selectionAtIndex ?m ?ts (int (?k - 1)) = Inr sel1"
        using at by blast
      then have "selectionAtIndex ?m ?ts (int ?k - 1) = Inr sel1"
        by (simp only: int_pred[OF pk])
      then show ?thesis using True s2 False
        by (simp add: getInterpolatedSelection_nonempty[OF assms])
    qed
  qed
qed

lemma getInterpolatedSelection_exact:
  assumes "js_get (keyframes s) t = Some kf"
  shows "getInterpolatedSelection t s = Inr (Some (selection kf))"
proof -
  let ?m = "keyframes s"
  let ?ts = "sort (js_keys ?m)"
  let ?k = "length (takeWhile (\<lambda>v. v < t) ?ts)"
  have ne: "?m \<noteq> []" using assms by (auto simp: js_get_def)
  have "t \<in> set ?ts" using js_get_Some_key[OF assms] by simp
  then obtain j where j: "j < length ?ts" "?ts ! j = t" by (metis in_set_conv_nth)
  have kj: "?k \<le> j"
  proof (rule ccontr)
    assume "\<not> ?k \<le> j"
    then have "j < ?k" by simp
    then have "?ts ! j < t" by (metis nth_mem set_takeWhileD takeWhile_nth)
    then show False using j by simp
  qed
  then have kl: "?k < length ?ts" using j by simp
  have "t \<le> ?ts ! ?k"
    using nth_length_takeWhile[of "\<lambda>v. v < t" ?ts] kl by auto
  moreover have "?ts ! ?k \<le> ?ts ! j"
    using kj j by (intro sorted_nth_mono) simp_all
  ultimately have eq: "?ts ! ?k = t" using j by simp
  have "selectionAtIndex ?m ?ts (int ?k) = Inr (selection kf)"
    using kl eq assms by (simp add: selectionAtIndex_def)
  then show ?thesis using kl eq
    by (simp add: getInterpolatedSelection_nonempty[OF ne])
qed

lemma sort_nth_0_Min: "xs \<noteq> [] \<Longrightarrow> sort xs ! 0 = Min (set xs)"
proof -
  assume ne: "xs \<noteq> []"
  have "sort xs \<noteq> []" using ne by (metis length_0_conv length_sort)
  then obtain y ys where ys: "sort xs = y # ys" by (cases "sort xs") auto
  have "sorted (y # ys)" using ys by (metis sorted_sort)
  then have "\<forall>z \<in> set (y # ys). y \<le> z" by auto
  moreover have "set (y # ys) = set xs" using ys by (metis set_sort)
  ultimately have "Min (set xs) = y" by (intro Min_eqI) auto
  then show ?thesis by (simp add: ys)
qed

lemma sort_nth_last_Max: "xs \<noteq> [] \<Longrightarrow> sort xs ! (length xs - 1) = Max (set xs)"
proof -
  assume ne: "xs \<noteq> []"
  let ?ys = "sort xs"
  have l: "length ?ys = length xs" by simp
  have n: "length xs - 1 < length ?ys" using ne by simp
  have "\<forall>z \<in> set ?ys. z \<le> ?ys ! (length xs - 1)"
  proof
    fix z assume "z \<in> set ?ys"
    then obtain i where "i < length ?ys" "?ys ! i = z" by (metis in_set_conv_nth)
    then show "z \<le> ?ys ! (length xs - 1)"
      using sorted_nth_mono[of ?ys i "length xs - 1"] n by auto
  qed
  moreover have "?ys ! (length xs - 1) \<in> set xs" using nth_mem[OF n] by simp
  ultimately have "Max (set xs) = ?ys ! (length xs - 1)" by (intro Max_eqI) auto
  then show ?thesis by simp
qed

lemma getInterpolatedSelection_before_first:
  assumes ne: "keyframes s \<noteq> []" and lt: "\<forall>k \<in> set (js_keys (keyframes s)). t < k"
  shows "\<exists>kf. js_get (keyframes s) (Min (set (js_keys (keyframes s)))) = Some kf \<and>
              getInterpolatedSelection t s = Inr (Some (selection kf))"
proof -
  let ?m = "keyframes s"
  let ?ts = "sort (js_keys ?m)"
  have kne: "js_keys ?m \<noteq> []" using ne by (simp add: js_keys_def)
  then have n: "0 < length ?ts" by simp
  have "?ts ! 0 \<in> set ?ts" using n by (intro nth_mem)
  then have gt: "t < ?ts ! 0" using lt by simp
  have "takeWhile (\<lambda>v. v < t) ?ts = []"
    using n gt by (cases ?ts) auto
  then have k0: "length (takeWhile (\<lambda>v. v < t) ?ts) = 0" by simp
  obtain kf where kf: "js_get ?m (?ts ! 0) = Some kf"
       "selectionAtIndex ?m ?ts (int 0) = Inr (selection kf)"
    using selectionAtIndex_sorted_keys[of 0 ?m] ne by auto
  have "getInterpolatedSelection t s = Inr (Some (selection kf))"
    using n gt kf(2) by (simp add: getInterpolatedSelection_nonempty[OF ne] k0)
  then show ?thesis using kf(1) sort_nth_0_Min[OF kne] by auto
qed

lemma getInterpolatedSelection_after_last:
  assumes ne: "keyframes s \<noteq> []" and gt: "\<forall>k \<in> set (js_keys (keyframes s)). k < t"
  shows "\<exists>kf. js_get (keyframes s) (Max (set (js_keys (keyframes s)))) = Some kf \<and>
              getInterpolatedSelection t s = Inr (Some (selection kf))"
proof -
  let ?m = "keyframes s"
  let ?ts = "sort (js_keys ?m)"
  have kne: "js_keys ?m \<noteq> []" using ne by (simp add: js_keys_def)
  have len: "length ?ts = length ?m" "length (js_keys ?m) = length ?m" by (simp_all add: js_keys_def)
  have "\<forall>v \<in> set ?ts. v < t" using gt by simp
  then have "takeWhile (\<lambda>v. v < t) ?ts = ?ts" by (simp only: takeWhile_eq_all_conv)
  then have kn: "length (takeWhile (\<lambda>v. v < t) ?ts) = length ?ts" by (simp only:)
  obtain kf where kf: "js_get ?m (?ts ! (length ?m - 1)) = Some kf"
       "selectionAtIndex ?m ?ts (int (length ?m - 1)) = Inr (selection kf)"
    using selectionAtIndex_sorted_keys[of "length ?m - 1" ?m] ne by auto
  have "0 < length ?m" using ne by simp
  then have "int (length ?m - 1) = int (length ?ts) - 1"
    using int_pred[of "length ?m"] by (simp only: len)
  then have "getInterpolatedSelection t s = Inr (Some (selection kf))"
    using kf(2) by (simp add: getInterpolatedSelection_nonempty[OF ne] kn)
  then show ?thesis using kf(1) sort_nth_last_Max[OF kne] len by auto
qed

lemma getInterpolatedSelection_empty:
  "keyframes s = [] \<Longrightarrow> getInterpolatedSelection t s = Inr None"
  by (simp add: getInterpolatedSelection_def js_size_def)

text \<open>
  C1. \<open>getInterpolatedSelection t\<close> never fails and returns \<open>null\<close> exactly when the track
  is empty; at a stored timestamp it returns that keyframe's selection as stored; before
  the first stored timestamp it returns the selection of the first keyframe, after the
  last the selection of the last keyframe.
\<close>

theorem getInterpolatedSelection_samples_and_ends:
  "(\<exists>r. getInterpolatedSelection t s = Inr r)
   \<and> (getInterpolatedSelection t s = Inr None \<longleftrightarrow> keyframes s = [])
   \<and> (js_get (keyframes s) t = Some kf \<longrightarrow>
        getInterpolatedSelection t s = Inr (Some (selection kf)))
   \<and> (keyframes s \<noteq> [] \<and> (\<forall>k \<in> set (js_keys (keyframes s)). t < k) \<longrightarrow>
        (\<exists>kf0. js_get (keyframes s) (Min (set (js_keys (keyframes s)))) = Some kf0 \<and>
               getInterpolatedSelection t s = Inr (Some (selection kf0))))
   \<and> (keyframes s \<noteq> [] \<and> (\<forall>k \<in> set (js_keys (keyframes s)). k < t) \<longrightarrow>
        (\<exists>kf1. js_get (keyframes s) (Max (set (js_keys (keyframes s)))) = Some kf1 \<and>
               getInterpolatedSelection t s = Inr (Some (selection kf1))))"
proof (intro conjI impI)
  show "\<exists>r. getInterpolatedSelection t s = Inr r"
    using getInterpolatedSelection_empty[of s t] getInterpolatedSelection_Some[of s t]
    by (cases "keyframes s = []") auto
next
  show "getInterpolatedSelection t s = Inr None \<longleftrightarrow> keyframes s = []"
    using getInterpolatedSelection_empty[of s t] getInterpolatedSelection_Some[of s t]
    by (cases "keyframes s = []") auto
next
  assume "js_get (keyframes s) t = Some kf"
  then show "getInterpolatedSelection t s = Inr (Some (selection kf))"
    by (rule getInterpolatedSelection_exact)
next
  assume "keyframes s \<noteq> [] \<and> (\<forall>k \<in> set (js_keys (keyframes s)). t < k)"
  then show "\<exists>kf0. js_get (keyframes s) (Min (set (js_keys (keyframes s)))) = Some kf0 \<and>
               getInterpolatedSelection t s = Inr (Some (selection kf0))"
    by (intro getInterpolatedSelection_before_first) simp_all
next
  assume "keyframes s \<noteq> [] \<and> (\<forall>k \<in> set (js_keys (keyframes s)). k < t)"
  then show "\<exists>kf1. js_get (keyframes s) (Max (set (js_keys (keyframes s)))) = Some kf1 \<and>
               getInterpolatedSelection t s = Inr (Some (selection kf1))"
    by (intro getInterpolatedSelection_after_last) simp_all
qed

theorem getInterpolatedSelection_samples_and_ends_witness:
  "js_get [(3, \<lparr>timestamp = 3, selection = \<lparr>sel_x = 100, sel_y = 0, sel_width = 100, sel_height = 100, sel_zoom = 1\<rparr>, recordedAt = 8\<rparr>),
           (1, \<lparr>timestamp = 1, selection = \<lparr>sel_x = 0, sel_y = 0, sel_width = 100, sel_height = 100, sel_zoom = 1\<rparr>, recordedAt = 7\<rparr>)] 1
     = Some \<lparr>timestamp = 1, selection = \<lparr>sel_x = 0, sel_y = 0, sel_width = 100, sel_height = 100, sel_zoom = 1\<rparr>, recordedAt = 7\<rparr> \<and>
   getInterpolatedSelection 1 ((FrameRecorder_new EDITOR_CONSTANTS)\<lparr>keyframes :=
          [(3, \<lparr>timestamp = 3, selection = \<lparr>sel_x = 100, sel_y = 0, sel_width = 100, sel_height = 100, sel_zoom = 1\<rparr>, recordedAt = 8\<rparr>),
           (1, \<lparr>timestamp = 1, selection = \<lparr>sel_x = 0, sel_y = 0, sel_width = 100, sel_height = 100, sel_zoom = 1\<rparr>, recordedAt = 7\<rparr>)]\<rparr>)
     = Inr (Some \<lparr>sel_x = 0, sel_y = 0, sel_width = 100, sel_height = 100, sel_zoom = 1\<rparr>) \<and>
   list_all (\<lambda>k. 0 < k \<and> k < 5) (js_keys
          [(3, \<lparr>timestamp = 3, selection = \<lparr>sel_x = 100, sel_y = 0, sel_width = 100, sel_height = 100, sel_zoom = 1\<rparr>, recordedAt = 8\<rparr>),
           (1, \<lparr>timestamp = 1, selection = \<lparr>sel_x = 0, sel_y = 0, sel_width = 100, sel_height = 100, sel_zoom = 1\<rparr>, recordedAt = 7\<rparr>)]) \<and>
   getInterpolatedSelection 0 ((FrameRecorder_new EDITOR_CONSTANTS)\<lparr>keyframes :=
          [(3, \<lparr>timestamp = 3, selection = \<lparr>sel_x = 100, sel_y = 0, sel_width = 100, sel_height = 100, sel_zoom = 1\<rparr>, recordedAt = 8\<rparr>),
           (1, \<lparr>timestamp = 1, selection = \<lparr>sel_x = 0, sel_y = 0, sel_width = 100, sel_height = 100, sel_zoom = 1\<rparr>, recordedAt = 7\<rparr>)]\<rparr>)
     = Inr (Some \<lparr>sel_x = 0, sel_y = 0, sel_width = 100, sel_height = 100, sel_zoom = 1\<rparr>) \<and>
   getInterpolatedSelection 5 ((FrameRecorder_new EDITOR_CONSTANTS)\<lparr>keyframes :=
          [(3, \<lparr>timestamp = 3, selection = \<lparr>sel_x = 100, sel_y = 0, sel_width = 100, sel_height = 100, sel_zoom = 1\<rparr>, recordedAt = 8\<rparr>),
           (1, \<lparr>timestamp = 1, selection = \<lparr>sel_x = 0, sel_y = 0, sel_width = 100, sel_height = 100, sel_zoom = 1\<rparr>, recordedAt = 7\<rparr>)]\<rparr>)
     = Inr (Some \<lparr>sel_x = 100, sel_y = 0, sel_width = 100, sel_height = 100, sel_zoom = 1\<rparr>) \<and>
   getInterpolatedSelection 2 (FrameRecorder_new EDITOR_CONSTANTS) = Inr None"
  using getInterpolatedSelection_samples_and_ends
    [where t = 1
       and kf = "\<lparr>timestamp = 1, selection = \<lparr>sel_x = 0, sel_y = 0, sel_width = 100, sel_height = 100, sel_zoom = 1\<rparr>, recordedAt = 7\<rparr>"
       and s = "(FrameRecorder_new EDITOR_CONSTANTS)\<lparr>keyframes :=
          [(3, \<lparr>timestamp = 3, selection = \<lparr>sel_x = 100, sel_y = 0, sel_width = 100, sel_height = 100, sel_zoom = 1\<rparr>, recordedAt = 8\<rparr>),
           (1, \<lparr>timestamp = 1, selection = \<lparr>sel_x = 0, sel_y = 0, sel_width = 100, sel_height = 100, sel_zoom = 1\<rparr>, recordedAt = 7\<rparr>)]\<rparr>"]
    getInterpolatedSelection_samples_and_ends
    [where t = 0
       and s = "(FrameRecorder_new EDITOR_CONSTANTS)\<lparr>keyframes :=
          [(3, \<lparr>timestamp = 3, selection = \<lparr>sel_x = 100, sel_y = 0, sel_width = 100, sel_height = 100, sel_zoom = 1\<rparr>, recordedAt = 8\<rparr>),
           (1, \<lparr>timestamp = 1, selection = \<lparr>sel_x = 0, sel_y = 0, sel_width = 100, sel_height = 100, sel_zoom = 1\<rparr>, recordedAt = 7\<rparr>)]\<rparr>"]
    getInterpolatedSelection_samples_and_ends
    [where t = 5
       and s = "(FrameRecorder_new EDITOR_CONSTANTS)\<lparr>keyframes :=
          [(3, \<lparr>timestamp = 3, selection = \<lparr>sel_x = 100, sel_y = 0, sel_width = 100, sel_height = 100, sel_zoom = 1\<rparr>, recordedAt = 8\<rparr>),
           (1, \<lparr>timestamp = 1, selection = \<lparr>sel_x = 0, sel_y = 0, sel_width = 100, sel_height = 100, sel_zoom = 1\<rparr>, recordedAt = 7\<rparr>)]\<rparr>"]
    getInterpolatedSelection_samples_and_ends
    [where t = 2 and s = "FrameRecorder_new EDITOR_CONSTANTS"]
  by (simp add: FrameRecorder_new_def js_get_def js_keys_def)

section \<open>Linear interpolation between two keyframes\<close>

text \<open>
  C8. On a track recorded with a keyframe at 1 s, \<open>{x:0, y:0, width:100, height:100, zoom:1}\<close>,
  and one at 3 s, \<open>{x:100, y:0, width:100, height:100, zoom:1}\<close>, with smoothing off,
  \<open>getInterpolatedSelection 2\<close> returns \<open>{x:50, y:0, width:100, height:100, zoom:1}\<close>;
  without smoothing every field of \<open>interpolateSelection\<close> is the linear interpolation with
  progress \<open>(t - t1) / (t2 - t1)\<close>, each operation rounded as the source's is.
\<close>

theorem interpolate_two_keyframes_scenario:
  "getInterpolatedSelection 2
     (record_all
        [(1, \<lparr>sel_x = 0, sel_y = 0, sel_width = 100, sel_height = 100, sel_zoom = 1\<rparr>, now1),
         (3, \<lparr>sel_x = 100, sel_y = 0, sel_width = 100, sel_height = 100, sel_zoom = 1\<rparr>, now2)]
        ((FrameRecorder_new \<lparr>SELECTION = k, RECORDING = Some \<lparr>KEYFRAME_INTERVAL = 33, SMOOTHING = False\<rparr>\<rparr>)
           \<lparr>isRecording := True, videoDuration := 10\<rparr>))
     = Inr (Some \<lparr>sel_x = 50, sel_y = 0, sel_width = 100, sel_height = 100, sel_zoom = 1\<rparr>)
   \<and> interpolateSelection \<lparr>SELECTION = k, RECORDING = Some \<lparr>KEYFRAME_INTERVAL = i, SMOOTHING = False\<rparr>\<rparr>
        s1 s2 t1 t2 t
     = \<lparr>sel_x = fl (sel_x s1 + fl (fl (sel_x s2 - sel_x s1) * fl (fl (t - t1) / fl (t2 - t1)))),
        sel_y = fl (sel_y s1 + fl (fl (sel_y s2 - sel_y s1) * fl (fl (t - t1) / fl (t2 - t1)))),
        sel_width = fl (sel_width s1 + fl (fl (sel_width s2 - sel_width s1) * fl (fl (t - t1) / fl (t2 - t1)))),
        sel_height = fl (sel_height s1 + fl (fl (sel_height s2 - sel_height s1) * fl (fl (t - t1) / fl (t2 - t1)))),
        sel_zoom = fl (sel_zoom s1 + fl (fl (sel_zoom s2 - sel_zoom s1) * fl (fl (t - t1) / fl (t2 - t1))))\<rparr>"
proof
  let ?c = "\<lparr>SELECTION = k, RECORDING = Some \<lparr>KEYFRAME_INTERVAL = 33, SMOOTHING = False\<rparr>\<rparr>"
  let ?a = "\<lparr>sel_x = 0, sel_y = 0, sel_width = 100, sel_height = 100, sel_zoom = 1\<rparr>"
  let ?b = "\<lparr>sel_x = 100, sel_y = 0, sel_width = 100, sel_height = 100, sel_zoom = 1\<rparr>"
  let ?s = "record_all [(1, ?a, now1), (3, ?b, now2)]
              ((FrameRecorder_new ?c)\<lparr>isRecording := True, videoDuration := 10\<rparr>)"
  have gap: "\<not> js_sub 3 1 < js_div 33 1000" "js_div 33 1000 \<noteq> 0"
    by code_simp+
  have kfs: "keyframes ?s =
      [(1, \<lparr>timestamp = 1, selection = ?a, recordedAt = now1\<rparr>),
       (3, \<lparr>timestamp = 3, selection = ?b, recordedAt = now2\<rparr>)]"
    and c: "constants ?s = ?c"
    by (simp_all add: FrameRecorder_new_def recordKeyframe_def Let_def minInterval_def
          js_has_def js_keys_def emitRecordingEvent_def gap)
  have fs: "findSurrounding [1, 3] 2 0 (-1) (-1) = (0, 1)"
    by (simp add: findSurrounding_closed)
  have ar: "js_div (js_sub 2 1) (js_sub 3 1) = 1 / 2"
    "js_add 0 (js_mul (js_sub 100 0) (1 / 2)) = 50"
    "js_add 0 (js_mul (js_sub 0 0) (1 / 2)) = 0"
    "js_add 100 (js_mul (js_sub 100 100) (1 / 2)) = 100"
    "js_add 1 (js_mul (js_sub 1 1) (1 / 2)) = 1"
    by code_simp+
  show "getInterpolatedSelection 2 ?s = Inr (Some \<lparr>sel_x = 50, sel_y = 0, sel_width = 100, sel_height = 100, sel_zoom = 1\<rparr>)"
    unfolding getInterpolatedSelection_def kfs c
    by (simp add: js_size_def js_keys_def fs selectionAtIndex_def js_get_def
          interpolateSelection_def smoothing_def lerp_def ar)
next
  show "interpolateSelection \<lparr>SELECTION = k, RECORDING = Some \<lparr>KEYFRAME_INTERVAL = i, SMOOTHING = False\<rparr>\<rparr>
        s1 s2 t1 t2 t
     = \<lparr>sel_x = fl (sel_x s1 + fl (fl (sel_x s2 - sel_x s1) * fl (fl (t - t1) / fl (t2 - t1)))),
        sel_y = fl (sel_y s1 + fl (fl (sel_y s2 - sel_y s1) * fl (fl (t - t1) / fl (t2 - t1)))),
        sel_width = fl (sel_width s1 + fl (fl (sel_width s2 - sel_width s1) * fl (fl (t - t1) / fl (t2 - t1)))),
        sel_height = fl (sel_height s1 + fl (fl (sel_height s2 - sel_height s1) * fl (fl (t - t1) / fl (t2 - t1)))),
        sel_zoom = fl (sel_zoom s1 + fl (fl (sel_zoom s2 - sel_zoom s1) * fl (fl (t - t1) / fl (t2 - t1))))\<rparr>"
    by (simp add: interpolateSelection_def smoothing_def lerp_def Let_def
          js_add_def js_sub_def js_mul_def js_div_def)
qed

section \<open>The smoothing curve\<close>











section \<open>Export of a range\<close>

lemma exportKeyframes_fst:
  "exp_keyframes (fst (exportKeyframes startArg endArg now s)) =
     sort_key timestamp (map snd (filter (\<lambda>(ts, kf).
         (case startArg of None \<Rightarrow> 0 | Some v \<Rightarrow> v) \<le> ts \<and>
         ts \<le> (case endArg of None \<Rightarrow> videoDuration s | Some v \<Rightarrow> v)) (keyframes s)))"
  by (simp add: exportKeyframes_def Let_def)

lemma track_wf_inj:
  assumes "track_wf m"
  shows "inj_on timestamp (set (map snd (filter P m)))"
proof (rule inj_onI)
  fix a b
  assume a: "a \<in> set (map snd (filter P m))" and b: "b \<in> set (map snd (filter P m))"
    and eq: "timestamp a = timestamp b"
  from a obtain ka where ka: "(ka, a) \<in> set m" by auto
  from b obtain kb where kb: "(kb, b) \<in> set m" by auto
  have cons: "\<forall>(k, kf) \<in> set m. timestamp kf = k"
    using assms by (simp add: track_wf_def list_all_iff)
  then have "ka = timestamp a" "kb = timestamp b" using ka kb by auto
  then have "ka = kb" using eq by simp
  moreover have "distinct (map fst m)" using assms by (simp add: track_wf_def js_keys_def)
  ultimately show "a = b" using ka kb eq_key_imp_eq_value[of m ka a b] by simp
qed

lemma export_order_independent:
  assumes "track_wf (keyframes s)" "mset (keyframes s') = mset (keyframes s)"
    and "videoDuration s' = videoDuration s"
  shows "fst (exportKeyframes startArg endArg now s') = fst (exportKeyframes startArg endArg now s)"
proof -
  define a where "a = (case startArg of None \<Rightarrow> 0 | Some v \<Rightarrow> v)"
  define e where "e = (case endArg of None \<Rightarrow> videoDuration s | Some v \<Rightarrow> v)"
  have e': "(case endArg of None \<Rightarrow> videoDuration s' | Some v \<Rightarrow> v) = e"
    using assms(3) by (simp add: e_def split: option.splits)
  let ?P = "\<lambda>(ts, kf). a \<le> ts \<and> ts \<le> e"
  let ?xs = "map snd (filter ?P (keyframes s))"
  let ?ys = "map snd (filter ?P (keyframes s'))"
  have "mset (filter ?P (keyframes s')) = mset (filter ?P (keyframes s))"
    using assms(2) by (simp only: mset_filter)
  then have ms: "mset ?ys = mset ?xs" by (simp only: mset_map)
  then have len: "length ?ys = length ?xs" by (rule mset_eq_length)
  have "mset ?ys = mset (sort_key timestamp ?xs)" using ms by simp
  moreover have "inj_on timestamp (set ?ys)"
  proof -
    have "set ?ys = set ?xs" using ms by (rule mset_eq_setD)
    then show ?thesis using track_wf_inj[OF assms(1), of ?P] by simp
  qed
  ultimately have sk: "sort_key timestamp ?ys = sort_key timestamp ?xs"
    by (intro sort_key_inj_key_eq) simp_all
  have "fst (exportKeyframes startArg endArg now s') =
          \<lparr>exp_keyframes = sort_key timestamp ?ys, exp_startTime = a, exp_endTime = e,
           exp_duration = e - a, exp_totalKeyframes = length ?ys, exp_exportedAt = now\<rparr>"
    unfolding exportKeyframes_def Let_def e' a_def[symmetric] by simp
  moreover have "fst (exportKeyframes startArg endArg now s) =
          \<lparr>exp_keyframes = sort_key timestamp ?xs, exp_startTime = a, exp_endTime = e,
           exp_duration = e - a, exp_totalKeyframes = length ?xs, exp_exportedAt = now\<rparr>"
    unfolding exportKeyframes_def Let_def e_def[symmetric] a_def[symmetric] by simp
  ultimately show ?thesis using sk len by (simp only:)
qed

text \<open>
  C6. \<open>exportKeyframes(start, end)\<close> leaves the recorder as it was and returns exactly the
  stored keyframes whose timestamp \<open>ts\<close> satisfies \<open>start \<le> ts \<le> end\<close> (both ends included,
  each as often as it is stored), in ascending order of timestamp; an argument left out is 0
  and \<open>videoDuration\<close>. On a track with distinct keys, each the timestamp of its keyframe,
  the exported data do not depend on the order of insertion.
\<close>

theorem exportKeyframes_range_sorted:
  "snd (exportKeyframes startArg endArg now s) = s
   \<and> exp_startTime (fst (exportKeyframes startArg endArg now s))
       = (case startArg of None \<Rightarrow> 0 | Some v \<Rightarrow> v)
   \<and> exp_endTime (fst (exportKeyframes startArg endArg now s))
       = (case endArg of None \<Rightarrow> videoDuration s | Some v \<Rightarrow> v)
   \<and> mset (exp_keyframes (fst (exportKeyframes startArg endArg now s)))
       = mset (map snd (filter (\<lambda>(ts, kf).
            exp_startTime (fst (exportKeyframes startArg endArg now s)) \<le> ts \<and>
            ts \<le> exp_endTime (fst (exportKeyframes startArg endArg now s))) (keyframes s)))
   \<and> sorted (map timestamp (exp_keyframes (fst (exportKeyframes startArg endArg now s))))
   \<and> (track_wf (keyframes s) \<and> mset (keyframes s') = mset (keyframes s) \<and>
       videoDuration s' = videoDuration s \<longrightarrow>
       fst (exportKeyframes startArg endArg now s') = fst (exportKeyframes startArg endArg now s))"
proof (intro conjI impI)
  show "snd (exportKeyframes startArg endArg now s) = s"
    by (simp add: exportKeyframes_def Let_def)
  show "exp_startTime (fst (exportKeyframes startArg endArg now s))
       = (case startArg of None \<Rightarrow> 0 | Some v \<Rightarrow> v)"
    by (simp add: exportKeyframes_def Let_def)
  show "exp_endTime (fst (exportKeyframes startArg endArg now s))
       = (case endArg of None \<Rightarrow> videoDuration s | Some v \<Rightarrow> v)"
    by (simp add: exportKeyframes_def Let_def)
  show "mset (exp_keyframes (fst (exportKeyframes startArg endArg now s)))
       = mset (map snd (filter (\<lambda>(ts, kf).
            exp_startTime (fst (exportKeyframes startArg endArg now s)) \<le> ts \<and>
            ts \<le> exp_endTime (fst (exportKeyframes startArg endArg now s))) (keyframes s)))"
    by (simp add: exportKeyframes_def Let_def)
  show "sorted (map timestamp (exp_keyframes (fst (exportKeyframes startArg endArg now s))))"
    by (simp add: exportKeyframes_fst)
next
  assume "track_wf (keyframes s) \<and> mset (keyframes s') = mset (keyframes s) \<and>
       videoDuration s' = videoDuration s"
  then show "fst (exportKeyframes startArg endArg now s') = fst (exportKeyframes startArg endArg now s)"
    by (intro export_order_independent) simp_all
qed


theorem exportKeyframes_range_sorted_witness:
  "track_wf [(3, \<lparr>timestamp = 3, selection = \<lparr>sel_x = 100, sel_y = 0, sel_width = 100, sel_height = 100, sel_zoom = 1\<rparr>, recordedAt = 8\<rparr>),
             (1, \<lparr>timestamp = 1, selection = \<lparr>sel_x = 0, sel_y = 0, sel_width = 100, sel_height = 100, sel_zoom = 1\<rparr>, recordedAt = 7\<rparr>),
             (8, \<lparr>timestamp = 8, selection = \<lparr>sel_x = 20, sel_y = 5, sel_width = 100, sel_height = 100, sel_zoom = 2\<rparr>, recordedAt = 9\<rparr>)] \<and>
   exp_keyframes (fst (exportKeyframes (Some 1) (Some 3) 0
     ((FrameRecorder_new EDITOR_CONSTANTS)\<lparr>videoDuration := 10, keyframes :=
        [(3, \<lparr>timestamp = 3, selection = \<lparr>sel_x = 100, sel_y = 0, sel_width = 100, sel_height = 100, sel_zoom = 1\<rparr>, recordedAt = 8\<rparr>),
         (1, \<lparr>timestamp = 1, selection = \<lparr>sel_x = 0, sel_y = 0, sel_width = 100, sel_height = 100, sel_zoom = 1\<rparr>, recordedAt = 7\<rparr>),
         (8, \<lparr>timestamp = 8, selection = \<lparr>sel_x = 20, sel_y = 5, sel_width = 100, sel_height = 100, sel_zoom = 2\<rparr>, recordedAt = 9\<rparr>)]\<rparr>)))
     = [\<lparr>timestamp = 1, selection = \<lparr>sel_x = 0, sel_y = 0, sel_width = 100, sel_height = 100, sel_zoom = 1\<rparr>, recordedAt = 7\<rparr>,
        \<lparr>timestamp = 3, selection = \<lparr>sel_x = 100, sel_y = 0, sel_width = 100, sel_height = 100, sel_zoom = 1\<rparr>, recordedAt = 8\<rparr>] \<and>
   fst (exportKeyframes (Some 1) (Some 3) 0
     ((FrameRecorder_new EDITOR_CONSTANTS)\<lparr>videoDuration := 10, keyframes :=
        [(1, \<lparr>timestamp = 1, selection = \<lparr>sel_x = 0, sel_y = 0, sel_width = 100, sel_height = 100, sel_zoom = 1\<rparr>, recordedAt = 7\<rparr>),
         (8, \<lparr>timestamp = 8, selection = \<lparr>sel_x = 20, sel_y = 5, sel_width = 100, sel_height = 100, sel_zoom = 2\<rparr>, recordedAt = 9\<rparr>),
         (3, \<lparr>timestamp = 3, selection = \<lparr>sel_x = 100, sel_y = 0, sel_width = 100, sel_height = 100, sel_zoom = 1\<rparr>, recordedAt = 8\<rparr>)]\<rparr>))
     = fst (exportKeyframes (Some 1) (Some 3) 0
     ((FrameRecorder_new EDITOR_CONSTANTS)\<lparr>videoDuration := 10, keyframes :=
        [(3, \<lparr>timestamp = 3, selection = \<lparr>sel_x = 100, sel_y = 0, sel_width = 100, sel_height = 100, sel_zoom = 1\<rparr>, recordedAt = 8\<rparr>),
         (1, \<lparr>timestamp = 1, selection = \<lparr>sel_x = 0, sel_y = 0, sel_width = 100, sel_height = 100, sel_zoom = 1\<rparr>, recordedAt = 7\<rparr>),
         (8, \<lparr>timestamp = 8, selection = \<lparr>sel_x = 20, sel_y = 5, sel_width = 100, sel_height = 100, sel_zoom = 2\<rparr>, recordedAt = 9\<rparr>)]\<rparr>))"
  using exportKeyframes_range_sorted
    [where startArg = "Some 1" and endArg = "Some 3" and now = 0
       and s = "(FrameRecorder_new EDITOR_CONSTANTS)\<lparr>videoDuration := 10, keyframes :=
        [(3, \<lparr>timestamp = 3, selection = \<lparr>sel_x = 100, sel_y = 0, sel_width = 100, sel_height = 100, sel_zoom = 1\<rparr>, recordedAt = 8\<rparr>),
         (1, \<lparr>timestamp = 1, selection = \<lparr>sel_x = 0, sel_y = 0, sel_width = 100, sel_height = 100, sel_zoom = 1\<rparr>, recordedAt = 7\<rparr>),
         (8, \<lparr>timestamp = 8, selection = \<lparr>sel_x = 20, sel_y = 5, sel_width = 100, sel_height = 100, sel_zoom = 2\<rparr>, recordedAt = 9\<rparr>)]\<rparr>"
       and s' = "(FrameRecorder_new EDITOR_CONSTANTS)\<lparr>videoDuration := 10, keyframes :=
        [(1, \<lparr>timestamp = 1, selection = \<lparr>sel_x = 0, sel_y = 0, sel_width = 100, sel_height = 100, sel_zoom = 1\<rparr>, recordedAt = 7\<rparr>),
         (8, \<lparr>timestamp = 8, selection = \<lparr>sel_x = 20, sel_y = 5, sel_width = 100, sel_height = 100, sel_zoom = 2\<rparr>, recordedAt = 9\<rparr>),
         (3, \<lparr>timestamp = 3, selection = \<lparr>sel_x = 100, sel_y = 0, sel_width = 100, sel_height = 100, sel_zoom = 1\<rparr>, recordedAt = 8\<rparr>)]\<rparr>"]
  by (simp add: FrameRecorder_new_def track_wf_def js_keys_def exportKeyframes_def Let_def)

section \<open>Stored timestamps and the video duration\<close>

lemma set_js_keys_js_set: "set (js_keys (js_set m k v)) = insert k (set (js_keys m))"
  by (auto simp: js_keys_js_set js_has_def)

lemma set_js_keys_fold_js_set:
  "set (js_keys (fold (\<lambda>kf m. js_set m (timestamp kf) kf) kfs m))
     = set (map timestamp kfs) \<union> set (js_keys m)"
  by (induction kfs arbitrary: m) (auto simp: set_js_keys_js_set)

lemma importKeyframes_keys:
  "set (js_keys (keyframes (importKeyframes (Some kfs) s))) = set (map timestamp kfs)"
proof -
  have "keyframes (importKeyframes (Some kfs) s)
          = fold (\<lambda>kf m. js_set m (timestamp kf) kf) kfs []"
    by (simp add: importKeyframes_def clearKeyframes_def emitRecordingEvent_def Let_def)
  then show ?thesis
    using set_js_keys_fold_js_set[of kfs "[]"] by (simp add: js_keys_def)
qed

lemma importKeyframes_videoDuration:
  "videoDuration (importKeyframes data s) = videoDuration s"
  by (cases data) (simp_all add: importKeyframes_def clearKeyframes_def emitRecordingEvent_def Let_def)

lemma importKeyframes_None_keys: "keyframes (importKeyframes None s) = []"
  by (simp add: importKeyframes_def clearKeyframes_def emitRecordingEvent_def Let_def)

lemma recordKeyframe_out_of_bounds:
  "ts < 0 \<or> ts > videoDuration s \<Longrightarrow> recordKeyframe ts sel now s = s"
  by (auto simp: recordKeyframe_def)

lemma recordKeyframe_in_bounds:
  assumes "timestamps_in_bounds s"
  shows "timestamps_in_bounds (recordKeyframe ts sel now s)"
proof (cases "recordKeyframe ts sel now s = s")
  case True
  then show ?thesis using assms by simp
next
  case False
  then have "\<not> (ts < 0 \<or> ts > videoDuration s)"
    using recordKeyframe_out_of_bounds[of ts s sel now] by blast
  then have inb: "0 \<le> ts" "ts \<le> videoDuration s" by simp_all
  from False recordKeyframe_cases[of ts sel now s]
  have eq: "recordKeyframe ts sel now s =
     s\<lparr>keyframes := js_set (keyframes s) ts \<lparr>timestamp = ts, selection = sel, recordedAt = now\<rparr>,
       lastKeyframeTime := ts, currentTime := ts,
       events := events s @ [EvKeyframe \<lparr>timestamp = ts, selection = sel, recordedAt = now\<rparr>]\<rparr>"
    by blast
  show ?thesis
    using assms inb by (simp add: eq timestamps_in_bounds_def list_all_iff set_js_keys_js_set)
qed

lemma apply_op_in_bounds:
  assumes "timestamps_in_bounds s" "import_in_bounds s c"
  shows "\<exists>s'. apply_op s c = Inr s' \<and> timestamps_in_bounds s'"
proof (cases c)
  case (OpStartRecording d)
  then show ?thesis using assms(1)
    by (simp add: startRecording_def emitRecordingEvent_def timestamps_in_bounds_def js_keys_def)
next
  case OpStopRecording
  then show ?thesis using assms(1)
    by (simp add: stopRecording_def emitRecordingEvent_def timestamps_in_bounds_def)
next
  case (OpRecord ts sel now)
  then show ?thesis using assms(1) by (simp add: recordKeyframe_in_bounds)
next
  case (OpImport data)
  show ?thesis
  proof (cases data)
    case None
    then show ?thesis using OpImport
      by (simp add: timestamps_in_bounds_def importKeyframes_None_keys js_keys_def)
  next
    case (Some kfs)
    then show ?thesis using OpImport assms(2)
      by (simp add: timestamps_in_bounds_def list_all_iff importKeyframes_keys
            importKeyframes_videoDuration)
  qed
next
  case (OpDelete ts)
  then show ?thesis using assms(1)
    by (auto simp: deleteKeyframe_def emitRecordingEvent_def timestamps_in_bounds_def
          js_delete_def js_keys_def list_all_iff)
next
  case OpClear
  then show ?thesis
    by (simp add: clearKeyframes_def emitRecordingEvent_def timestamps_in_bounds_def js_keys_def)
qed

lemma run_ops_in_bounds:
  "timestamps_in_bounds s \<Longrightarrow> imports_in_bounds s cs \<Longrightarrow>
   \<exists>s'. run_ops s cs = Inr s' \<and> timestamps_in_bounds s'"
proof (induction cs arbitrary: s)
  case Nil
  then show ?case by simp
next
  case (Cons c cs)
  then obtain s1 where s1: "apply_op s c = Inr s1" "timestamps_in_bounds s1"
    using apply_op_in_bounds[of s c] by auto
  then have "imports_in_bounds s1 cs" using Cons.prems(2) by simp
  then show ?case using Cons.IH[OF s1(2)] s1(1) by simp
qed

text \<open>Every call keeps the track a well-formed \<open>Map\<close>.\<close>

lemma track_wf_js_set:
  "track_wf m \<Longrightarrow> timestamp v = k \<Longrightarrow> track_wf (js_set m k v)"
proof (induction m)
  case Nil
  then show ?case by (simp add: track_wf_def js_keys_def)
next
  case (Cons p ps)
  have ih: "track_wf (js_set ps k v)"
    using Cons by (simp add: track_wf_def js_keys_def)
  show ?case
  proof (cases "fst p = k")
    case True
    then show ?thesis using Cons.prems by (simp add: track_wf_def js_keys_def)
  next
    case False
    have "fst p \<notin> set (js_keys ps)"
      using Cons.prems(1) by (simp add: track_wf_def js_keys_def)
    then have "fst p \<notin> set (js_keys (js_set ps k v))"
      using False by (simp only: set_js_keys_js_set) simp
    then show ?thesis using ih Cons.prems(1) False
      by (simp add: track_wf_def js_keys_def)
  qed
qed

lemma track_wf_fold_js_set:
  "track_wf m \<Longrightarrow> track_wf (fold (\<lambda>kf m. js_set m (timestamp kf) kf) kfs m)"
  by (induction kfs arbitrary: m) (simp_all add: track_wf_js_set)

lemma track_wf_filter: "track_wf m \<Longrightarrow> track_wf (filter P m)"
  by (simp add: track_wf_def js_keys_def distinct_map_filter list_all_iff)

lemma apply_op_track_wf:
  assumes "track_wf (keyframes s)" "apply_op s c = Inr s'"
  shows "track_wf (keyframes s')"
proof (cases c)
  case (OpStartRecording d)
  then show ?thesis using assms
    by (auto simp: startRecording_def emitRecordingEvent_def track_wf_def js_keys_def
          split: if_splits)
next
  case OpStopRecording
  then show ?thesis using assms by (auto simp: stopRecording_def emitRecordingEvent_def)
next
  case (OpRecord ts sel now)
  then show ?thesis
    using assms recordKeyframe_cases[of ts sel now s]
      track_wf_js_set[of "keyframes s" "\<lparr>timestamp = ts, selection = sel, recordedAt = now\<rparr>" ts]
    by auto
next
  case (OpImport data)
  have "track_wf []" by (simp add: track_wf_def js_keys_def)
  then show ?thesis using assms OpImport track_wf_fold_js_set[of "[]"]
    by (cases data)
       (auto simp: importKeyframes_def clearKeyframes_def emitRecordingEvent_def Let_def)
next
  case (OpDelete ts)
  then show ?thesis using assms track_wf_filter[of "keyframes s"]
    by (auto simp: deleteKeyframe_def emitRecordingEvent_def js_delete_def split: if_splits)
next
  case OpClear
  then show ?thesis using assms
    by (auto simp: clearKeyframes_def emitRecordingEvent_def track_wf_def js_keys_def)
qed

lemma run_ops_track_wf:
  "track_wf (keyframes s) \<Longrightarrow> run_ops s cs = Inr s' \<Longrightarrow> track_wf (keyframes s')"
proof (induction cs arbitrary: s)
  case Nil
  then show ?case by simp
next
  case (Cons c cs)
  then show ?case
    by (cases "apply_op s c") (auto dest: apply_op_track_wf)
qed

text \<open>
  C5 (as amended). The track of a new recorder is within bounds, and after every sequence
  of \<open>startRecording\<close>, \<open>stopRecording\<close>, \<open>recordKeyframe\<close>, \<open>deleteKeyframe\<close>,
  \<open>clearKeyframes\<close> and of \<open>importKeyframes\<close> calls whose keyframes already lie within
  \<open>[0, videoDuration]\<close> of the importing recorder, every stored timestamp lies within
  \<open>[0, videoDuration]\<close>. \<open>recordKeyframe\<close> returns the recorder unchanged for a timestamp
  outside the bound. \<open>importKeyframes\<close> checks no bound: it keeps \<open>videoDuration\<close> and the
  stored timestamps are exactly the imported ones.
\<close>

theorem timestamps_stay_in_bounds:
  "timestamps_in_bounds (FrameRecorder_new c)
   \<and> (timestamps_in_bounds s \<and> imports_in_bounds s cs \<longrightarrow>
        (\<exists>s'. run_ops s cs = Inr s' \<and> timestamps_in_bounds s'))
   \<and> (ts < 0 \<or> ts > videoDuration s \<longrightarrow> recordKeyframe ts sel now s = s)
   \<and> set (js_keys (keyframes (importKeyframes (Some kfs) s))) = set (map timestamp kfs)
   \<and> videoDuration (importKeyframes (Some kfs) s) = videoDuration s"
proof (intro conjI impI)
  show "timestamps_in_bounds (FrameRecorder_new c)"
    by (simp add: timestamps_in_bounds_def FrameRecorder_new_def js_keys_def)
next
  assume "timestamps_in_bounds s \<and> imports_in_bounds s cs"
  then show "\<exists>s'. run_ops s cs = Inr s' \<and> timestamps_in_bounds s'"
    by (intro run_ops_in_bounds) simp_all
next
  assume "ts < 0 \<or> ts > videoDuration s"
  then show "recordKeyframe ts sel now s = s" by (rule recordKeyframe_out_of_bounds)
next
  show "set (js_keys (keyframes (importKeyframes (Some kfs) s))) = set (map timestamp kfs)"
    by (rule importKeyframes_keys)
next
  show "videoDuration (importKeyframes (Some kfs) s) = videoDuration s"
    by (rule importKeyframes_videoDuration)
qed

theorem timestamps_stay_in_bounds_witness:
  "timestamps_in_bounds (FrameRecorder_new EDITOR_CONSTANTS) \<and>
   imports_in_bounds (FrameRecorder_new EDITOR_CONSTANTS)
     [OpStartRecording 10,
      OpRecord 1 \<lparr>sel_x = 0, sel_y = 0, sel_width = 100, sel_height = 100, sel_zoom = 1\<rparr> 7,
      OpRecord 11 \<lparr>sel_x = 5, sel_y = 0, sel_width = 100, sel_height = 100, sel_zoom = 1\<rparr> 8,
      OpImport (Some [\<lparr>timestamp = 5, selection = \<lparr>sel_x = 1, sel_y = 2, sel_width = 100, sel_height = 100, sel_zoom = 1\<rparr>, recordedAt = 3\<rparr>,
                      \<lparr>timestamp = 2, selection = \<lparr>sel_x = 3, sel_y = 4, sel_width = 100, sel_height = 100, sel_zoom = 1\<rparr>, recordedAt = 4\<rparr>]),
      OpDelete 5,
      OpRecord 4 \<lparr>sel_x = 9, sel_y = 0, sel_width = 100, sel_height = 100, sel_zoom = 1\<rparr> 9] \<and>
   (case run_ops (FrameRecorder_new EDITOR_CONSTANTS)
     [OpStartRecording 10,
      OpRecord 1 \<lparr>sel_x = 0, sel_y = 0, sel_width = 100, sel_height = 100, sel_zoom = 1\<rparr> 7,
      OpRecord 11 \<lparr>sel_x = 5, sel_y = 0, sel_width = 100, sel_height = 100, sel_zoom = 1\<rparr> 8,
      OpImport (Some [\<lparr>timestamp = 5, selection = \<lparr>sel_x = 1, sel_y = 2, sel_width = 100, sel_height = 100, sel_zoom = 1\<rparr>, recordedAt = 3\<rparr>,
                      \<lparr>timestamp = 2, selection = \<lparr>sel_x = 3, sel_y = 4, sel_width = 100, sel_height = 100, sel_zoom = 1\<rparr>, recordedAt = 4\<rparr>]),
      OpDelete 5,
      OpRecord 4 \<lparr>sel_x = 9, sel_y = 0, sel_width = 100, sel_height = 100, sel_zoom = 1\<rparr> 9] of
      Inl e \<Rightarrow> False
    | Inr s' \<Rightarrow> js_keys (keyframes s') = [2, 4] \<and> videoDuration s' = 10 \<and> timestamps_in_bounds s') \<and>
   recordKeyframe 11 \<lparr>sel_x = 5, sel_y = 0, sel_width = 100, sel_height = 100, sel_zoom = 1\<rparr> 8
      ((FrameRecorder_new EDITOR_CONSTANTS)\<lparr>isRecording := True, videoDuration := 10\<rparr>)
     = (FrameRecorder_new EDITOR_CONSTANTS)\<lparr>isRecording := True, videoDuration := 10\<rparr>"
  using timestamps_stay_in_bounds
    [where c = EDITOR_CONSTANTS and s = "FrameRecorder_new EDITOR_CONSTANTS"
       and cs = "[OpStartRecording 10,
      OpRecord 1 \<lparr>sel_x = 0, sel_y = 0, sel_width = 100, sel_height = 100, sel_zoom = 1\<rparr> 7,
      OpRecord 11 \<lparr>sel_x = 5, sel_y = 0, sel_width = 100, sel_height = 100, sel_zoom = 1\<rparr> 8,
      OpImport (Some [\<lparr>timestamp = 5, selection = \<lparr>sel_x = 1, sel_y = 2, sel_width = 100, sel_height = 100, sel_zoom = 1\<rparr>, recordedAt = 3\<rparr>,
                      \<lparr>timestamp = 2, selection = \<lparr>sel_x = 3, sel_y = 4, sel_width = 100, sel_height = 100, sel_zoom = 1\<rparr>, recordedAt = 4\<rparr>]),
      OpDelete 5,
      OpRecord 4 \<lparr>sel_x = 9, sel_y = 0, sel_width = 100, sel_height = 100, sel_zoom = 1\<rparr> 9]"]
    timestamps_stay_in_bounds
    [where ts = 11 and now = 8
       and sel = "\<lparr>sel_x = 5, sel_y = 0, sel_width = 100, sel_height = 100, sel_zoom = 1\<rparr>"
       and s = "(FrameRecorder_new EDITOR_CONSTANTS)\<lparr>isRecording := True, videoDuration := 10\<rparr>"]
  by (simp add: FrameRecorder_new_def startRecording_def emitRecordingEvent_def
        recordKeyframe_def Let_def minInterval_def EDITOR_CONSTANTS_def js_has_def js_keys_def
        importKeyframes_def clearKeyframes_def deleteKeyframe_def js_delete_def
        timestamps_in_bounds_def)

text \<open>The claim as stated fails: an import into a 10 s recording stores a keyframe at 100 s.\<close>

theorem import_out_of_bounds:
  "(case run_ops (FrameRecorder_new EDITOR_CONSTANTS)
           [OpStartRecording 10,
            OpImport (Some [\<lparr>timestamp = 100,
                             selection = \<lparr>sel_x = 0, sel_y = 0, sel_width = 100, sel_height = 100, sel_zoom = 1\<rparr>,
                             recordedAt = 0\<rparr>])] of
      Inl e \<Rightarrow> False
    | Inr s' \<Rightarrow> videoDuration s' = 10 \<and> js_keys (keyframes s') = [100] \<and>
               \<not> timestamps_in_bounds s')"
  by (simp add: FrameRecorder_new_def startRecording_def emitRecordingEvent_def
        importKeyframes_def clearKeyframes_def Let_def js_keys_def timestamps_in_bounds_def)

section \<open>The expressions handed to the render engine\<close>

lemma render_nonempty:
  "render True (kf # kfs) trimStart trimEnd =
     Inr \<lparr>cmd_trimStart = trimStart, cmd_trimEnd = trimEnd, cmd_targetAspect = 9 / 16,
          zExpr = map (\<lambda>k. gate (timestamp k - trimStart) (sel_zoom (selection k)) (Num 1)) (kf # kfs),
          xExpr = map (\<lambda>k. gate (timestamp k - trimStart) (sel_x (selection k))
                               (Quot (Var ''iw'') (Num 2))) (kf # kfs),
          yExpr = map (\<lambda>k. gate (timestamp k - trimStart) (sel_y (selection k))
                               (Quot (Var ''ih'') (Num 2))) (kf # kfs)\<rparr>"
  by (simp add: render_def relativeKeyframes_def Let_def)

text \<open>
  C7. \<open>render\<close> re-timestamps every keyframe it is given, so every keyframe inside the
  trim range, to \<open>timestamp - trimStart\<close>, keeping its selection, and the emitted terms
  switch at these relative timestamps; a keyframe at 5 s under the trim range 2 s to 8 s
  gets the relative timestamp 3.
\<close>

theorem relative_timestamps:
  "map timestamp (relativeKeyframes trimStart kfs) = map (\<lambda>k. timestamp k - trimStart) kfs
   \<and> map selection (relativeKeyframes trimStart kfs) = map selection kfs
   \<and> render True (kf # kfs) trimStart trimEnd =
       Inr \<lparr>cmd_trimStart = trimStart, cmd_trimEnd = trimEnd, cmd_targetAspect = 9 / 16,
            zExpr = map (\<lambda>k. gate (timestamp k - trimStart) (sel_zoom (selection k)) (Num 1)) (kf # kfs),
            xExpr = map (\<lambda>k. gate (timestamp k - trimStart) (sel_x (selection k))
                                 (Quot (Var ''iw'') (Num 2))) (kf # kfs),
            yExpr = map (\<lambda>k. gate (timestamp k - trimStart) (sel_y (selection k))
                                 (Quot (Var ''ih'') (Num 2))) (kf # kfs)\<rparr>
   \<and> relativeKeyframes 2 [\<lparr>timestamp = 5, selection = sel, recordedAt = r\<rparr>]
       = [\<lparr>timestamp = 3, selection = sel, recordedAt = r\<rparr>]
   \<and> map_sum id zExpr (render True [\<lparr>timestamp = 5, selection = sel, recordedAt = r\<rparr>] 2 8)
       = Inr [If (Gte (Var ''t'') (Num 3)) (Num (sel_zoom sel)) (Num 1)]"
  by (simp add: relativeKeyframes_def render_nonempty gate_def comp_def)

text \<open>
  C3 (a defect of the code). The claim asks for one step function per option: at every
  render time the zoom, x and y of the latest keyframe at or before it. For keyframes at
  0 s (zoom 2, x 10, y 20) and 5 s (zoom 3, x 30, y 40) under the trim range 0 s to 8 s,
  \<open>render\<close> emits for each option two separate terms joined by \<open>:\<close>, each switching from the
  default to its own keyframe's value, the second not nested in the first:
  \<open>z='if(gte(t,0),2,1):if(gte(t,5),3,1)'\<close>.
\<close>

theorem zoompan_terms_joined_not_nested:
  "render True
     [\<lparr>timestamp = 0, selection = \<lparr>sel_x = 10, sel_y = 20, sel_width = 100, sel_height = 100, sel_zoom = 2\<rparr>, recordedAt = 0\<rparr>,
      \<lparr>timestamp = 5, selection = \<lparr>sel_x = 30, sel_y = 40, sel_width = 100, sel_height = 100, sel_zoom = 3\<rparr>, recordedAt = 0\<rparr>]
     0 8
   = Inr \<lparr>cmd_trimStart = 0, cmd_trimEnd = 8, cmd_targetAspect = 9 / 16,
          zExpr = [If (Gte (Var ''t'') (Num 0)) (Num 2) (Num 1),
                   If (Gte (Var ''t'') (Num 5)) (Num 3) (Num 1)],
          xExpr = [If (Gte (Var ''t'') (Num 0)) (Num 10) (Quot (Var ''iw'') (Num 2)),
                   If (Gte (Var ''t'') (Num 5)) (Num 30) (Quot (Var ''iw'') (Num 2))],
          yExpr = [If (Gte (Var ''t'') (Num 0)) (Num 20) (Quot (Var ''ih'') (Num 2)),
                   If (Gte (Var ''t'') (Num 5)) (Num 40) (Quot (Var ''ih'') (Num 2))]\<rparr>"
  by (simp add: render_nonempty gate_def)

section \<open>Wheel zoom of the selection\<close>

lemma constrainToCanvas_fits:
  "sel_width (ctl_selection (constrainToCanvas c)) \<le> canvas_width c"
  "sel_height (ctl_selection (constrainToCanvas c)) \<le> canvas_height c"
  "canvas_width (constrainToCanvas c) = canvas_width c"
  "canvas_height (constrainToCanvas c) = canvas_height c"
  "sel_zoom (ctl_selection (constrainToCanvas c)) = sel_zoom (ctl_selection c)"
  by (simp_all add: constrainToCanvas_def Let_def min_def max_def)

lemma applyZoom_fits:
  "sel_width (ctl_selection (applyZoom newZoom c)) \<le> canvas_width c"
  "sel_height (ctl_selection (applyZoom newZoom c)) \<le> canvas_height c"
  "canvas_width (applyZoom newZoom c) = canvas_width c"
  "canvas_height (applyZoom newZoom c) = canvas_height c"
  "sel_zoom (ctl_selection (applyZoom newZoom c)) = newZoom"
proof -
  define w where "w = sel_width (ctl_selection c) * (newZoom / sel_zoom (ctl_selection c))"
  define h where "h = sel_height (ctl_selection c) * (newZoom / sel_zoom (ctl_selection c))"
  define c' where "c' = c\<lparr>ctl_selection :=
      \<lparr>sel_x = sel_x (ctl_selection c) + sel_width (ctl_selection c) / 2 - w / 2,
       sel_y = sel_y (ctl_selection c) + sel_height (ctl_selection c) / 2 - h / 2,
       sel_width = w, sel_height = h, sel_zoom = newZoom\<rparr>\<rparr>"
  have eq: "applyZoom newZoom c = constrainToCanvas c'"
    by (simp add: applyZoom_def Let_def c'_def w_def h_def)
  have c': "canvas_width c' = canvas_width c" "canvas_height c' = canvas_height c"
    "sel_zoom (ctl_selection c') = newZoom"
    by (simp_all add: c'_def)
  show "sel_width (ctl_selection (applyZoom newZoom c)) \<le> canvas_width c"
    using constrainToCanvas_fits(1)[of c'] by (simp only: eq c')
  show "sel_height (ctl_selection (applyZoom newZoom c)) \<le> canvas_height c"
    using constrainToCanvas_fits(2)[of c'] by (simp only: eq c')
  show "canvas_width (applyZoom newZoom c) = canvas_width c"
    using constrainToCanvas_fits(3)[of c'] by (simp only: eq c')
  show "canvas_height (applyZoom newZoom c) = canvas_height c"
    using constrainToCanvas_fits(4)[of c'] by (simp only: eq c')
  show "sel_zoom (ctl_selection (applyZoom newZoom c)) = newZoom"
    using constrainToCanvas_fits(5)[of c'] by (simp only: eq c')
qed

lemma handleWheel_unchanged:
  "wheelZoom deltaY c = sel_zoom (ctl_selection c) \<Longrightarrow> handleWheel deltaY c = c"
  by (simp add: handleWheel_def Let_def)

lemma handleWheel_changed:
  "wheelZoom deltaY c \<noteq> sel_zoom (ctl_selection c) \<Longrightarrow>
   handleWheel deltaY c =
     (applyZoom (wheelZoom deltaY c) c)
       \<lparr>notifications := notifications (applyZoom (wheelZoom deltaY c) c)
                           @ [ctl_selection (applyZoom (wheelZoom deltaY c) c)]\<rparr>"
  by (simp add: handleWheel_def Let_def)

lemma wheelZoom_saturated_min:
  "MIN_ZOOM (SELECTION (ctl_constants c)) \<le> MAX_ZOOM (SELECTION (ctl_constants c)) \<Longrightarrow>
   0 \<le> ZOOM_SENSITIVITY (SELECTION (ctl_constants c)) \<Longrightarrow>
   sel_zoom (ctl_selection c) = MIN_ZOOM (SELECTION (ctl_constants c)) \<Longrightarrow> deltaY > 0 \<Longrightarrow>
   wheelZoom deltaY c = sel_zoom (ctl_selection c)"
  by (simp add: wheelZoom_def Let_def min_def max_def)

lemma wheelZoom_saturated_max:
  "MIN_ZOOM (SELECTION (ctl_constants c)) \<le> MAX_ZOOM (SELECTION (ctl_constants c)) \<Longrightarrow>
   0 \<le> ZOOM_SENSITIVITY (SELECTION (ctl_constants c)) \<Longrightarrow>
   sel_zoom (ctl_selection c) = MAX_ZOOM (SELECTION (ctl_constants c)) \<Longrightarrow> \<not> deltaY > 0 \<Longrightarrow>
   wheelZoom deltaY c = sel_zoom (ctl_selection c)"
  by (simp add: wheelZoom_def Let_def min_def max_def)

lemma wheelZoom_zero_delta:
  "ZOOM_SENSITIVITY (SELECTION (ctl_constants c)) = 0 \<Longrightarrow>
   MIN_ZOOM (SELECTION (ctl_constants c)) \<le> sel_zoom (ctl_selection c) \<Longrightarrow>
   sel_zoom (ctl_selection c) \<le> MAX_ZOOM (SELECTION (ctl_constants c)) \<Longrightarrow>
   wheelZoom deltaY c = sel_zoom (ctl_selection c)"
  by (simp add: wheelZoom_def Let_def min_def max_def)

text \<open>
  C9. A wheel event whose clamped zoom equals the current zoom leaves the controller, and
  so the selection rectangle, unchanged: this is the case at \<open>MIN_ZOOM\<close> when zooming
  out, at \<open>MAX_ZOOM\<close> when zooming in, and for a zero sensitivity with the zoom inside
  the range. After \<open>applyZoom\<close>, which ends with \<open>constrainToCanvas\<close>, and so after every
  wheel event that changes the zoom, the selection is at most as wide and as high as the
  canvas (for a current zoom other than 0, by which \<open>applyZoom\<close> divides).
\<close>

theorem wheel_zoom_noop_and_fits:
  "(wheelZoom deltaY c = sel_zoom (ctl_selection c) \<longrightarrow> handleWheel deltaY c = c)
   \<and> (MIN_ZOOM (SELECTION (ctl_constants c)) \<le> MAX_ZOOM (SELECTION (ctl_constants c)) \<and>
       0 \<le> ZOOM_SENSITIVITY (SELECTION (ctl_constants c)) \<and>
       (sel_zoom (ctl_selection c) = MIN_ZOOM (SELECTION (ctl_constants c)) \<and> deltaY > 0 \<or>
        sel_zoom (ctl_selection c) = MAX_ZOOM (SELECTION (ctl_constants c)) \<and> deltaY \<le> 0)
       \<longrightarrow> handleWheel deltaY c = c)
   \<and> (ZOOM_SENSITIVITY (SELECTION (ctl_constants c)) = 0 \<and>
       MIN_ZOOM (SELECTION (ctl_constants c)) \<le> sel_zoom (ctl_selection c) \<and>
       sel_zoom (ctl_selection c) \<le> MAX_ZOOM (SELECTION (ctl_constants c))
       \<longrightarrow> handleWheel deltaY c = c)
   \<and> (sel_zoom (ctl_selection c) \<noteq> 0 \<longrightarrow>
        sel_width (ctl_selection (applyZoom newZoom c)) \<le> canvas_width c \<and>
        sel_height (ctl_selection (applyZoom newZoom c)) \<le> canvas_height c)
   \<and> (sel_zoom (ctl_selection c) \<noteq> 0 \<and> wheelZoom deltaY c \<noteq> sel_zoom (ctl_selection c) \<longrightarrow>
        sel_zoom (ctl_selection (handleWheel deltaY c)) = wheelZoom deltaY c \<and>
        sel_width (ctl_selection (handleWheel deltaY c)) \<le> canvas_width (handleWheel deltaY c) \<and>
        sel_height (ctl_selection (handleWheel deltaY c)) \<le> canvas_height (handleWheel deltaY c))"
proof (intro conjI impI)
  assume "wheelZoom deltaY c = sel_zoom (ctl_selection c)"
  then show "handleWheel deltaY c = c" by (rule handleWheel_unchanged)
next
  assume a: "MIN_ZOOM (SELECTION (ctl_constants c)) \<le> MAX_ZOOM (SELECTION (ctl_constants c)) \<and>
       0 \<le> ZOOM_SENSITIVITY (SELECTION (ctl_constants c)) \<and>
       (sel_zoom (ctl_selection c) = MIN_ZOOM (SELECTION (ctl_constants c)) \<and> deltaY > 0 \<or>
        sel_zoom (ctl_selection c) = MAX_ZOOM (SELECTION (ctl_constants c)) \<and> deltaY \<le> 0)"
  then have "wheelZoom deltaY c = sel_zoom (ctl_selection c)"
    using wheelZoom_saturated_min[of c deltaY] wheelZoom_saturated_max[of c deltaY]
    by (auto simp: not_less)
  then show "handleWheel deltaY c = c" by (rule handleWheel_unchanged)
next
  assume "ZOOM_SENSITIVITY (SELECTION (ctl_constants c)) = 0 \<and>
       MIN_ZOOM (SELECTION (ctl_constants c)) \<le> sel_zoom (ctl_selection c) \<and>
       sel_zoom (ctl_selection c) \<le> MAX_ZOOM (SELECTION (ctl_constants c))"
  then have "wheelZoom deltaY c = sel_zoom (ctl_selection c)"
    by (intro wheelZoom_zero_delta) simp_all
  then show "handleWheel deltaY c = c" by (rule handleWheel_unchanged)
next
  show "sel_width (ctl_selection (applyZoom newZoom c)) \<le> canvas_width c"
       "sel_height (ctl_selection (applyZoom newZoom c)) \<le> canvas_height c"
    by (rule applyZoom_fits)+
next
  assume a: "sel_zoom (ctl_selection c) \<noteq> 0 \<and> wheelZoom deltaY c \<noteq> sel_zoom (ctl_selection c)"
  then have eq: "handleWheel deltaY c =
     (applyZoom (wheelZoom deltaY c) c)
       \<lparr>notifications := notifications (applyZoom (wheelZoom deltaY c) c)
                           @ [ctl_selection (applyZoom (wheelZoom deltaY c) c)]\<rparr>"
    by (intro handleWheel_changed) simp
  show "sel_zoom (ctl_selection (handleWheel deltaY c)) = wheelZoom deltaY c"
    by (simp add: eq applyZoom_fits)
  show "sel_width (ctl_selection (handleWheel deltaY c)) \<le> canvas_width (handleWheel deltaY c)"
    by (simp add: eq applyZoom_fits)
  show "sel_height (ctl_selection (handleWheel deltaY c)) \<le> canvas_height (handleWheel deltaY c)"
    by (simp add: eq applyZoom_fits)
qed


theorem wheel_zoom_noop_and_fits_witness:
  "wheelZoom 1 \<lparr>ctl_selection = \<lparr>sel_x = 100, sel_y = 50, sel_width = 96, sel_height = 94, sel_zoom = 0.3\<rparr>,
                canvas_width = 800, canvas_height = 450, ctl_constants = EDITOR_CONSTANTS,
                notifications = []\<rparr> = 0.3 \<and>
   MIN_ZOOM (SELECTION EDITOR_CONSTANTS) = 0.3 \<and> MAX_ZOOM (SELECTION EDITOR_CONSTANTS) = 3 \<and>
   ZOOM_SENSITIVITY (SELECTION EDITOR_CONSTANTS) = 0.1 \<and>
   handleWheel 1 \<lparr>ctl_selection = \<lparr>sel_x = 100, sel_y = 50, sel_width = 96, sel_height = 94, sel_zoom = 0.3\<rparr>,
                canvas_width = 800, canvas_height = 450, ctl_constants = EDITOR_CONSTANTS,
                notifications = []\<rparr>
     = \<lparr>ctl_selection = \<lparr>sel_x = 100, sel_y = 50, sel_width = 96, sel_height = 94, sel_zoom = 0.3\<rparr>,
                canvas_width = 800, canvas_height = 450, ctl_constants = EDITOR_CONSTANTS,
                notifications = []\<rparr> \<and>
   handleWheel (-1) \<lparr>ctl_selection = \<lparr>sel_x = 100, sel_y = 50, sel_width = 320, sel_height = 315, sel_zoom = 1\<rparr>,
                canvas_width = 800, canvas_height = 450,
                ctl_constants = EDITOR_CONSTANTS\<lparr>SELECTION := \<lparr>ZOOM_SENSITIVITY = 0, MIN_ZOOM = 0.3, MAX_ZOOM = 3\<rparr>\<rparr>,
                notifications = []\<rparr>
     = \<lparr>ctl_selection = \<lparr>sel_x = 100, sel_y = 50, sel_width = 320, sel_height = 315, sel_zoom = 1\<rparr>,
                canvas_width = 800, canvas_height = 450,
                ctl_constants = EDITOR_CONSTANTS\<lparr>SELECTION := \<lparr>ZOOM_SENSITIVITY = 0, MIN_ZOOM = 0.3, MAX_ZOOM = 3\<rparr>\<rparr>,
                notifications = []\<rparr> \<and>
   wheelZoom (-1) \<lparr>ctl_selection = \<lparr>sel_x = 100, sel_y = 5, sel_width = 320, sel_height = 440, sel_zoom = 1\<rparr>,
                canvas_width = 800, canvas_height = 450, ctl_constants = EDITOR_CONSTANTS,
                notifications = []\<rparr> = 1.1 \<and>
   ctl_selection (handleWheel (-1)
       \<lparr>ctl_selection = \<lparr>sel_x = 100, sel_y = 5, sel_width = 320, sel_height = 440, sel_zoom = 1\<rparr>,
        canvas_width = 800, canvas_height = 450, ctl_constants = EDITOR_CONSTANTS,
        notifications = []\<rparr>)
     = \<lparr>sel_x = 84, sel_y = 0, sel_width = 352, sel_height = 450, sel_zoom = 1.1\<rparr> \<and>
   sel_height (ctl_selection (applyZoom 2
       \<lparr>ctl_selection = \<lparr>sel_x = 100, sel_y = 5, sel_width = 320, sel_height = 440, sel_zoom = 1\<rparr>,
        canvas_width = 800, canvas_height = 450, ctl_constants = EDITOR_CONSTANTS,
        notifications = []\<rparr>)) = 450"
  using wheel_zoom_noop_and_fits
    [where deltaY = 1
       and c = "\<lparr>ctl_selection = \<lparr>sel_x = 100, sel_y = 50, sel_width = 96, sel_height = 94, sel_zoom = 0.3\<rparr>,
                canvas_width = 800, canvas_height = 450, ctl_constants = EDITOR_CONSTANTS,
                notifications = []\<rparr>"]
    wheel_zoom_noop_and_fits
    [where deltaY = "-1"
       and c = "\<lparr>ctl_selection = \<lparr>sel_x = 100, sel_y = 50, sel_width = 320, sel_height = 315, sel_zoom = 1\<rparr>,
                canvas_width = 800, canvas_height = 450,
                ctl_constants = EDITOR_CONSTANTS\<lparr>SELECTION := \<lparr>ZOOM_SENSITIVITY = 0, MIN_ZOOM = 0.3, MAX_ZOOM = 3\<rparr>\<rparr>,
                notifications = []\<rparr>"]
    wheel_zoom_noop_and_fits
    [where deltaY = "-1" and newZoom = 2
       and c = "\<lparr>ctl_selection = \<lparr>sel_x = 100, sel_y = 5, sel_width = 320, sel_height = 440, sel_zoom = 1\<rparr>,
        canvas_width = 800, canvas_height = 450, ctl_constants = EDITOR_CONSTANTS,
        notifications = []\<rparr>"]
  by (simp add: EDITOR_CONSTANTS_def wheelZoom_def handleWheel_def applyZoom_def
        constrainToCanvas_def Let_def)

end
